theory Spec2Isabelle
  imports Main "HOL-Library.Word" "HOL-Library.Sublist"
begin

unbundle bit_operations_syntax

section \<open>Data model of \<^verbatim>\<open>watch.h\<close>\<close>

text \<open>
  The header declares three layers: the portable event record
  \<^verbatim>\<open>watch::directory_event\<close>, the front ends
  \<^verbatim>\<open>generic_directory_watch\<close> and \<^verbatim>\<open>generic_file_watcher\<close>, and the
  Linux back end \<^verbatim>\<open>watch_impl::inotify_watch_pool\<close>.

  C++ \<^verbatim>\<open>int\<close> and \<^verbatim>\<open>uint32_t\<close> are 32-bit words (\<open>sint\<close> reads the
  signed value), \<^verbatim>\<open>std::vector::size_type\<close> is a 64-bit word, and every
  conversion between the two that the source performs implicitly is written out.
\<close>

type_synonym int32 = "32 word"
type_synonym uint32 = "32 word"
type_synonym size_type = "64 word"

text \<open>\<^verbatim>\<open>enum directory_event::type\<close> (the name \<open>type\<close> is taken in Isabelle).\<close>

datatype event_type =
  watch_directory_destroyed
| file_created
| file_deleted
| file_modified

record directory_event =
  Type :: event_type
  Name :: string

text \<open>The default constructor \<^verbatim>\<open>directory_event()\<close>.\<close>

definition directory_event_default :: directory_event where
  "directory_event_default = \<lparr>Type = watch_directory_destroyed, Name = []\<rparr>"

subsection \<open>Path splitting of the file watcher\<close>

text \<open>
  \<^verbatim>\<open>GetDirectory\<close> and \<^verbatim>\<open>GetFilename\<close> run the same loop over the reverse
  iterators of the string: it stops at the first \<^verbatim>\<open>'/'\<close> or \<^verbatim>\<open>'\\'\<close> seen
  from the end and uses \<^verbatim>\<open>std::distance(dir.rbegin(), iter)\<close>, the number of
  characters stepped over. \<open>rscan\<close> is that loop on the reversed string, with the
  distance as its counter; \<open>None\<close> is the loop running off \<^verbatim>\<open>rend()\<close>.
\<close>

definition is_separator :: "char \<Rightarrow> bool" where
  "is_separator c = (c = CHR ''/'' \<or> c = CHR 0x5C)"

fun rscan :: "string \<Rightarrow> nat \<Rightarrow> nat option" where
  "rscan [] d = None"
| "rscan (c # cs) d = (if is_separator c then Some d else rscan cs (Suc d))"

definition GetDirectory :: "string \<Rightarrow> string" where
  "GetDirectory dir =
     (case rscan (rev dir) 0 of
        Some d \<Rightarrow> take (length dir - d) dir
      | None \<Rightarrow> [])"

definition GetFilename :: "string \<Rightarrow> string" where
  "GetFilename dir =
     (case rscan (rev dir) 0 of
        Some d \<Rightarrow> drop (length dir - d) dir
      | None \<Rightarrow> [])"

subsection \<open>The inotify interface\<close>

text \<open>
  The event bits of \<^verbatim>\<open>sys/inotify.h\<close> (a system header, not part of the
  repository) with their Linux values.
\<close>

definition IN_MODIFY :: uint32 where "IN_MODIFY = 0x00000002"
definition IN_CLOSE_WRITE :: uint32 where "IN_CLOSE_WRITE = 0x00000008"
definition IN_MOVED_FROM :: uint32 where "IN_MOVED_FROM = 0x00000040"
definition IN_MOVED_TO :: uint32 where "IN_MOVED_TO = 0x00000080"
definition IN_CREATE :: uint32 where "IN_CREATE = 0x00000100"
definition IN_DELETE :: uint32 where "IN_DELETE = 0x00000200"
definition IN_UNMOUNT :: uint32 where "IN_UNMOUNT = 0x00002000"
definition IN_Q_OVERFLOW :: uint32 where "IN_Q_OVERFLOW = 0x00004000"
definition IN_IGNORED :: uint32 where "IN_IGNORED = 0x00008000"

text \<open>
  \<^verbatim>\<open>eventBuffer_\<close> is a byte array (a \<open>string\<close>: characters are bytes), and
  \<^verbatim>\<open>Update\<close> reads a \<^verbatim>\<open>struct inotify_event\<close> at a byte offset of it: four
  32-bit fields (\<^verbatim>\<open>wd\<close>, \<^verbatim>\<open>mask\<close>, \<^verbatim>\<open>cookie\<close>, \<^verbatim>\<open>len\<close>) in the
  byte order of the machine, little-endian here, and behind them the flexible array
  \<^verbatim>\<open>name\<close>. A read outside the array yields 0 in this model; the array has 4096
  bytes and the header reads stay below byte 288.
\<close>

definition byte_at :: "string \<Rightarrow> nat \<Rightarrow> char" where
  "byte_at buf i = (case drop i buf of [] \<Rightarrow> CHR 0x00 | c # _ \<Rightarrow> c)"

definition field32 :: "string \<Rightarrow> nat \<Rightarrow> 32 word" where
  "field32 buf off =
     of_char (byte_at buf off) + 256 * of_char (byte_at buf (off + 1)) +
     65536 * of_char (byte_at buf (off + 2)) + 16777216 * of_char (byte_at buf (off + 3))"

definition ev_wd :: "string \<Rightarrow> nat \<Rightarrow> int32" where
  "ev_wd buf off = field32 buf off"

definition ev_mask :: "string \<Rightarrow> nat \<Rightarrow> uint32" where
  "ev_mask buf off = field32 buf (off + 4)"

definition ev_cookie :: "string \<Rightarrow> nat \<Rightarrow> uint32" where
  "ev_cookie buf off = field32 buf (off + 8)"

definition ev_len :: "string \<Rightarrow> nat \<Rightarrow> uint32" where
  "ev_len buf off = field32 buf (off + 12)"

text \<open>
  \<^verbatim>\<open>event.name\<close> is the address behind the header, so what it points to is the
  rest of the buffer from there; \<^verbatim>\<open>std::string(event.name)\<close> takes the bytes up to
  the first zero byte. The field \<^verbatim>\<open>len\<close> is not consulted.
\<close>

definition ev_name :: "string \<Rightarrow> nat \<Rightarrow> string" where
  "ev_name buf off = drop (off + 16) buf"

definition std_string :: "string \<Rightarrow> string" where
  "std_string mem = takeWhile (\<lambda>c. c \<noteq> CHR 0x00) mem"

text \<open>
  \<^verbatim>\<open>MaxEventSize = sizeof(inotify_event) + NAME_MAX + 1\<close>, with the header of 16
  bytes and \<^verbatim>\<open>NAME_MAX\<close> = 255.
\<close>

definition MaxEventSize :: nat where
  "MaxEventSize = 16 + 255 + 1"

text \<open>
  The kernel side of the descriptor \<^verbatim>\<open>handleInotify_\<close> is the environment of
  the program. Its answers are a script held in the pool state: the pending results of
  \<^verbatim>\<open>inotify_add_watch\<close> (return value and the \<^verbatim>\<open>errno\<close> it leaves) and of
  \<^verbatim>\<open>read\<close> (\<open>read_failed\<close> is the return value -1, \<open>read_bytes\<close> the
  bytes a successful read has to deliver, of which the call copies at most the requested
  count into the buffer). When a script is used up the kernel is quiet:
  \<^verbatim>\<open>inotify_add_watch\<close> fails with \<^verbatim>\<open>ENOENT\<close> and the non-blocking
  \<^verbatim>\<open>read\<close> returns -1. Every system call made is appended to \<open>syscalls\<close>.
\<close>

datatype syscall =
  inotify_add_watch string uint32
| inotify_rm_watch int32
| read_inotify

datatype read_result =
  read_failed
| read_bytes string

definition ENOENT :: int32 where "ENOENT = 2"

subsection \<open>\<^verbatim>\<open>inotify_watch_pool\<close>\<close>

text \<open>
  The member \<^verbatim>\<open>events_\<close> is the field \<open>events\<close> (a name cannot end with an
  underscore here), and \<^verbatim>\<open>eventBuffer_\<close> is \<open>eventBuffer\<close>. The buffer keeps
  its bytes from one read to the next.
\<close>

record inotify_watch_pool =
  events :: "int32 \<rightharpoonup> directory_event list"
  eventBuffer :: string
  kernel_add_watch :: "(int32 \<times> int32) list"
  kernel_read :: "read_result list"
  syscalls :: "syscall list"

text \<open>
  \<^verbatim>\<open>struct create_result\<close>. Its member \<^verbatim>\<open>Ticket\<close> is \<open>Ticket0\<close> here; the
  name \<open>Ticket\<close> is kept for the member of the watch.
\<close>

record create_result =
  Error :: int32
  Handle :: int32
  Ticket0 :: size_type

definition DeadFlags :: uint32 where
  "DeadFlags = IN_IGNORED OR IN_Q_OVERFLOW OR IN_UNMOUNT"

definition FileCreatedFlags :: uint32 where
  "FileCreatedFlags = IN_CREATE OR IN_MOVED_TO"

definition FileDeletedFlags :: uint32 where
  "FileDeletedFlags = IN_MOVED_FROM OR IN_DELETE"

definition FileModifiedFlags :: uint32 where
  "FileModifiedFlags = IN_MODIFY OR IN_CLOSE_WRITE"

text \<open>
  \<^verbatim>\<open>events_[k]\<close>: \<^verbatim>\<open>std::unordered_map::operator[]\<close> inserts an empty
  vector under a key it does not hold, and returns the vector of the key.
\<close>

definition subscript :: "inotify_watch_pool \<Rightarrow> int32 \<Rightarrow> directory_event list \<times> inotify_watch_pool" where
  "subscript p k =
     (case events p k of
        Some vec \<Rightarrow> (vec, p)
      | None \<Rightarrow> ([], p\<lparr>events := (events p)(k \<mapsto> [])\<rparr>))"

text \<open>\<^verbatim>\<open>vec.emplace_back(...)\<close> through the reference \<^verbatim>\<open>events_[k]\<close>.\<close>

definition emplace_back :: "inotify_watch_pool \<Rightarrow> int32 \<Rightarrow> directory_event \<Rightarrow> inotify_watch_pool" where
  "emplace_back p k e =
     (let (vec, p1) = subscript p k
      in p1\<lparr>events := (events p1)(k \<mapsto> vec @ [e])\<rparr>)"

text \<open>
  \<^verbatim>\<open>vec.size()\<close> and the checked access \<^verbatim>\<open>vec.at(n)\<close>, which throws
  \<^verbatim>\<open>std::out_of_range\<close> when \<open>n\<close> is not below the size. The size of a vector
  always fits \<^verbatim>\<open>size_type\<close>.
\<close>

datatype error = out_of_range

definition vec_size :: "'a list \<Rightarrow> size_type" where
  "vec_size vec = word_of_nat (length vec)"

definition at :: "'a list \<Rightarrow> size_type \<Rightarrow> error + 'a" where
  "at vec n = (if n \<ge> vec_size vec then Inl out_of_range else Inr (vec ! unat n))"

text \<open>
  \<^verbatim>\<open>ParseEvent(inotify_event& event)\<close> is called with a reference into
  \<^verbatim>\<open>eventBuffer_\<close>; the model passes the byte offset of the event.
\<close>

definition ParseEvent :: "inotify_watch_pool \<Rightarrow> nat \<Rightarrow> inotify_watch_pool" where
  "ParseEvent p offset =
     (let buf = eventBuffer p;
          (vec, p1) = subscript p (ev_wd buf offset)
      in if ev_mask buf offset AND DeadFlags \<noteq> 0
         then emplace_back p1 (ev_wd buf offset) directory_event_default
         else if ev_mask buf offset AND FileCreatedFlags \<noteq> 0
           then emplace_back p1 (ev_wd buf offset)
                  \<lparr>Type = file_created, Name = std_string (ev_name buf offset)\<rparr>
         else if ev_mask buf offset AND FileDeletedFlags \<noteq> 0
           then emplace_back p1 (ev_wd buf offset)
                  \<lparr>Type = file_deleted, Name = std_string (ev_name buf offset)\<rparr>
         else if ev_mask buf offset AND FileModifiedFlags \<noteq> 0
           then emplace_back p1 (ev_wd buf offset)
                  \<lparr>Type = file_modified, Name = std_string (ev_name buf offset)\<rparr>
         else p1)"

text \<open>The two system calls whose results the pool uses.\<close>

definition sys_inotify_add_watch ::
  "inotify_watch_pool \<Rightarrow> string \<Rightarrow> uint32 \<Rightarrow> (int32 \<times> int32) \<times> inotify_watch_pool" where
  "sys_inotify_add_watch p file flags =
     (let p1 = p\<lparr>syscalls := syscalls p @ [inotify_add_watch file flags]\<rparr>
      in case kernel_add_watch p of
           [] \<Rightarrow> ((- 1, ENOENT), p1)
         | r # rs \<Rightarrow> (r, p1\<lparr>kernel_add_watch := rs\<rparr>))"

text \<open>
  \<^verbatim>\<open>read(handleInotify_, eventBuffer_, MaxEventSize)\<close> returns -1 (\<open>None\<close>) or the
  number of bytes it has copied to the start of the buffer, at most
  \<open>MaxEventSize\<close>; the rest of the buffer is left as it was.
\<close>

definition sys_read :: "inotify_watch_pool \<Rightarrow> nat option \<times> inotify_watch_pool" where
  "sys_read p =
     (let p1 = p\<lparr>syscalls := syscalls p @ [read_inotify]\<rparr>
      in case kernel_read p of
           [] \<Rightarrow> (None, p1)
         | r # rs \<Rightarrow>
             (case r of
                read_failed \<Rightarrow> (None, p1\<lparr>kernel_read := rs\<rparr>)
              | read_bytes bs \<Rightarrow>
                  let got = take MaxEventSize bs
                  in (Some (length got),
                      p1\<lparr>kernel_read := rs,
                         eventBuffer := got @ drop (length got) (eventBuffer p)\<rparr>)))"

definition Create :: "inotify_watch_pool \<Rightarrow> string \<Rightarrow> create_result \<times> inotify_watch_pool" where
  "Create p file =
     (let flags = FileCreatedFlags OR FileDeletedFlags OR FileModifiedFlags;
          ((handle, errno), p1) = sys_inotify_add_watch p file flags;
          (vec, p2) = subscript p1 handle
      in (\<lparr>Error = (if handle = - 1 then errno else 0), Handle = handle,
            Ticket0 = vec_size vec\<rparr>, p2))"

text \<open>
  \<^verbatim>\<open>Destroy(id_type id)\<close>; the parameter is \<open>ident\<close> here. The return value of
  \<^verbatim>\<open>inotify_rm_watch\<close> is not looked at.
\<close>

definition Destroy :: "inotify_watch_pool \<Rightarrow> int32 \<Rightarrow> inotify_watch_pool" where
  "Destroy p ident =
     (if ident = - 1 then p
      else p\<lparr>syscalls := syscalls p @ [inotify_rm_watch ident]\<rparr>)"

text \<open>
  The loop of \<^verbatim>\<open>Update\<close>: while \<^verbatim>\<open>len > offset\<close> it hands the event at the
  offset to \<^verbatim>\<open>ParseEvent\<close> and moves the offset on by the 16 bytes of the header
  and by the event's \<^verbatim>\<open>len\<close>. The offset is a \<^verbatim>\<open>ssize_t\<close> that stays far from
  its bounds (it is below 272 before each step, and a step adds less than \<open>2 ^ 32 + 16\<close>),
  so it is a natural number here.
\<close>

function Update_loop :: "inotify_watch_pool \<Rightarrow> nat \<Rightarrow> nat \<Rightarrow> inotify_watch_pool" where
  "Update_loop p len offset =
     (if len > offset
      then Update_loop (ParseEvent p offset) len
             (offset + 16 + unat (ev_len (eventBuffer p) offset))
      else p)"
  by pat_completeness auto
termination
  by (relation "measure (\<lambda>(p, len, offset). len - offset)") auto

declare Update_loop.simps [simp del]

definition Update :: "inotify_watch_pool \<Rightarrow> inotify_watch_pool" where
  "Update p =
     (let (len, p1) = sys_read p
      in case len of
           None \<Rightarrow> p1
         | Some n \<Rightarrow> Update_loop p1 n 0)"

definition GetEvents :: "inotify_watch_pool \<Rightarrow> int32 \<Rightarrow> directory_event list \<times> inotify_watch_pool" where
  "GetEvents p watch = subscript p watch"

text \<open>
  The queue of a handle as an observer sees it: the vector stored under the key, empty
  when the key is absent (what \<^verbatim>\<open>events_[k]\<close> would return).
\<close>

definition queue :: "inotify_watch_pool \<Rightarrow> int32 \<Rightarrow> directory_event list" where
  "queue p k = (case events p k of Some vec \<Rightarrow> vec | None \<Rightarrow> [])"

subsection \<open>\<^verbatim>\<open>generic_directory_watch\<close>\<close>

record generic_directory_watch =
  Path :: string
  NativeHandle :: int32
  Ticket :: int32
  Dead :: bool

text \<open>\<^verbatim>\<open>Path.c_str()\<close>: the characters up to the first NUL.\<close>

definition c_str :: "string \<Rightarrow> string" where
  "c_str s = takeWhile (\<lambda>c. c \<noteq> CHR 0x00) s"

definition watch_Destroy ::
  "generic_directory_watch \<Rightarrow> inotify_watch_pool \<Rightarrow> generic_directory_watch \<times> inotify_watch_pool" where
  "watch_Destroy w p = (w\<lparr>Dead := True\<rparr>, Destroy p (NativeHandle w))"

text \<open>
  \<^verbatim>\<open>Ticket = result.Ticket\<close> narrows the 64-bit \<^verbatim>\<open>size_type\<close> to
  \<^verbatim>\<open>int\<close>: the low 32 bits are kept (\<open>ucast\<close>), as C++20 requires and as the
  compilers did before it. When \<^verbatim>\<open>Create\<close> reports an error the watch keeps its
  old handle and ticket.
\<close>

definition Recreate ::
  "generic_directory_watch \<Rightarrow> inotify_watch_pool \<Rightarrow> generic_directory_watch \<times> inotify_watch_pool" where
  "Recreate w p =
     (let (w1, p1) = watch_Destroy w p;
          (result, p2) = Create p1 (c_str (Path w1))
      in if Error result = 0
         then (w1\<lparr>Dead := False, NativeHandle := Handle result,
                   Ticket := ucast (Ticket0 result)\<rparr>, p2)
         else (w1, p2))"

text \<open>The constructor: the member initialisers, then \<^verbatim>\<open>Recreate()\<close>.\<close>

definition generic_directory_watch_new ::
  "string \<Rightarrow> inotify_watch_pool \<Rightarrow> generic_directory_watch \<times> inotify_watch_pool" where
  "generic_directory_watch_new path p =
     Recreate \<lparr>Path = path, NativeHandle = - 1, Ticket = - 1, Dead = True\<rparr> p"

text \<open>
  \<^verbatim>\<open>PollEvent\<close> returns the \<^verbatim>\<open>bool\<close>, the value of the reference parameter
  \<^verbatim>\<open>event\<close> after the call, and the new states of the watch and of the pool; a
  thrown \<^verbatim>\<open>std::out_of_range\<close> is \<open>Inl\<close>. In \<^verbatim>\<open>Ticket >= vec.size()\<close> and
  in \<^verbatim>\<open>vec.at(Ticket++)\<close> the \<^verbatim>\<open>int\<close> is converted to \<^verbatim>\<open>size_type\<close> by
  sign extension (\<open>scast\<close>). The increment \<^verbatim>\<open>Ticket++\<close> wraps here, as
  two's-complement hardware does; in C++ it is undefined at \<^verbatim>\<open>INT_MAX\<close>, which
  takes a queue of \<open>2 ^ 31\<close> entries to reach.
\<close>

definition PollEvent ::
  "generic_directory_watch \<Rightarrow> inotify_watch_pool \<Rightarrow> directory_event \<Rightarrow>
     error + (bool \<times> directory_event \<times> generic_directory_watch \<times> inotify_watch_pool)" where
  "PollEvent w p event =
     (let (w1, p1) = (if Dead w then Recreate w p else (w, p))
      in if Dead w1 then Inr (False, event, w1, p1)
         else
           let p2 = Update p1;
               (vec, p3) = GetEvents p2 (NativeHandle w1)
           in if (scast (Ticket w1) :: size_type) \<ge> vec_size vec
              then Inr (False, event, w1, p3)
              else
                case at vec (scast (Ticket w1)) of
                  Inl err \<Rightarrow> Inl err
                | Inr event1 \<Rightarrow>
                    let w2 = w1\<lparr>Ticket := Ticket w1 + 1\<rparr>;
                        w3 = (if Type event1 = watch_directory_destroyed
                              then w2\<lparr>Dead := True\<rparr> else w2)
                    in Inr (True, event1, w3, p3))"

text \<open>
  A caller's sequence of \<open>n\<close> calls of \<^verbatim>\<open>PollEvent\<close> on one watch, each
  call handing the event variable to the next. It returns the events of the calls that
  returned true, in order.
\<close>

fun poll_n ::
  "nat \<Rightarrow> generic_directory_watch \<Rightarrow> inotify_watch_pool \<Rightarrow> directory_event \<Rightarrow>
     error + (directory_event list \<times> directory_event \<times> generic_directory_watch \<times> inotify_watch_pool)" where
  "poll_n 0 w p event = Inr ([], event, w, p)"
| "poll_n (Suc n) w p event =
     (case PollEvent w p event of
        Inl err \<Rightarrow> Inl err
      | Inr (polled, event1, w1, p1) \<Rightarrow>
          (case poll_n n w1 p1 event1 of
             Inl err \<Rightarrow> Inl err
           | Inr (evs, event2, w2, p2) \<Rightarrow>
               Inr (if polled then event1 # evs else evs, event2, w2, p2)))"

subsection \<open>\<^verbatim>\<open>generic_file_watcher\<close>\<close>

record generic_file_watcher =
  DirectoryWatcher :: generic_directory_watch
  Filename :: string

definition generic_file_watcher_new ::
  "string \<Rightarrow> inotify_watch_pool \<Rightarrow> generic_file_watcher \<times> inotify_watch_pool" where
  "generic_file_watcher_new dir p =
     (let (dw, p1) = generic_directory_watch_new (GetDirectory dir) p
      in (\<lparr>DirectoryWatcher = dw, Filename = GetFilename dir\<rparr>, p1))"

text \<open>
  \<^verbatim>\<open>generic_file_watcher::PollEvent\<close> loops while the inner
  \<^verbatim>\<open>PollEvent\<close> returns true, and returns true at the first event whose name is
  the filename. Each inner call that returns true uses up an answer of the kernel script
  or moves the ticket one step up (it cannot be -1 where the bounds check passes), so
  under a finite script the loop ends; that is the termination proof.
\<close>

function file_PollEvent ::
  "generic_file_watcher \<Rightarrow> inotify_watch_pool \<Rightarrow> directory_event \<Rightarrow>
     error + (bool \<times> directory_event \<times> generic_file_watcher \<times> inotify_watch_pool)" where
  "file_PollEvent fw p event =
     (case PollEvent (DirectoryWatcher fw) p event of
        Inl err \<Rightarrow> Inl err
      | Inr (polled, event1, dw1, p1) \<Rightarrow>
          if polled
          then if Name event1 = Filename fw
               then Inr (True, event1, fw\<lparr>DirectoryWatcher := dw1\<rparr>, p1)
               else file_PollEvent (fw\<lparr>DirectoryWatcher := dw1\<rparr>) p1 event1
          else Inr (False, event1, fw\<lparr>DirectoryWatcher := dw1\<rparr>, p1))"
  by pat_completeness auto
termination
proof (relation "measures [\<lambda>(fw, p, event). length (kernel_read p),
    \<lambda>(fw, p, event). length (kernel_add_watch p),
    \<lambda>(fw, p, event). 2 ^ 32 - unat (Ticket (DirectoryWatcher fw))]", goal_cases)
  case 1
  show ?case by simp
next
  case (2 fw p event r x1 rest event1 rest' dw1 p1)
  then have poll: "PollEvent (DirectoryWatcher fw) p event = Inr (True, event1, dw1, p1)"
    by simp
  \<comment> \<open>the pool operations touch the kernel script only through the two system calls\<close>
  have sub: "kernel_read (snd (subscript q k)) = kernel_read q \<and>
      kernel_add_watch (snd (subscript q k)) = kernel_add_watch q" for q k
    by (simp add: subscript_def split: option.split)
  have parse: "kernel_read (ParseEvent q off) = kernel_read q \<and>
      kernel_add_watch (ParseEvent q off) = kernel_add_watch q" for q off
    by (simp add: ParseEvent_def emplace_back_def split_beta sub Let_def)
  have loop: "kernel_read (Update_loop q n off) = kernel_read q \<and>
      kernel_add_watch (Update_loop q n off) = kernel_add_watch q" for q n off
  proof (induction q n off rule: Update_loop.induct)
    case (1 q n off)
    show ?case
    proof (cases "n > off")
      case True
      with "1.IH" show ?thesis
        by (subst (1 2) Update_loop.simps) (simp add: parse)
    next
      case False
      then show ?thesis
        by (subst (1 2) Update_loop.simps) simp
    qed
  qed
  have update: "kernel_read (Update q) = tl (kernel_read q) \<and>
      kernel_add_watch (Update q) = kernel_add_watch q" for q
    by (simp add: Update_def sys_read_def Let_def loop
        split: list.split read_result.split option.split)
  have recreate: "kernel_read (snd (Recreate v q)) = kernel_read q \<and>
      kernel_add_watch (snd (Recreate v q)) = tl (kernel_add_watch q) \<and>
      (\<not> Dead (fst (Recreate v q)) \<longrightarrow> kernel_add_watch q \<noteq> [])" for v q
    by (simp add: Recreate_def watch_Destroy_def Destroy_def Create_def
        sys_inotify_add_watch_def ENOENT_def Let_def split_beta sub split: list.split)
  \<comment> \<open>a poll of an alive watch that returns true reads once and steps the ticket\<close>
  have alive: "kernel_read q' = tl (kernel_read q) \<and> kernel_add_watch q' = kernel_add_watch q \<and>
      unat (Ticket v') = Suc (unat (Ticket v))"
    if "\<not> Dead v" and "PollEvent v q event = Inr (True, event1, v', q')" for v q v' q'
  proof -
    from that have lt: "\<not> vec_size (fst (GetEvents (Update q) (NativeHandle v))) \<le> (scast (Ticket v) :: size_type)"
      and q': "q' = snd (GetEvents (Update q) (NativeHandle v))"
      and v': "Ticket v' = Ticket v + 1"
      by (auto simp: PollEvent_def Let_def split_beta at_def split: if_splits)
    from lt have "(scast (Ticket v) :: size_type) \<noteq> - 1"
      by auto
    then have "Ticket v \<noteq> - 1"
      by auto
    then have "1 + Ticket v \<noteq> 0"
      by (simp add: add_eq_0_iff)
    then have "unat (1 + Ticket v) = Suc (unat (Ticket v))"
      by (rule unatSuc)
    then have "unat (Ticket v') = Suc (unat (Ticket v))"
      by (simp add: v' add.commute)
    then show ?thesis
      by (simp add: q' GetEvents_def sub update)
  qed
  have bound: "unat (Ticket dw1) < 2 ^ 32"
    using unsigned_less [of "Ticket dw1"] by simp
  show ?case
  proof (cases "Dead (DirectoryWatcher fw)")
    case False
    from alive [OF False poll] bound show ?thesis
      by (cases "kernel_read p") auto
  next
    case True
    have "PollEvent (DirectoryWatcher fw) p event =
        (if Dead (fst (Recreate (DirectoryWatcher fw) p))
         then Inr (False, event, fst (Recreate (DirectoryWatcher fw) p),
                   snd (Recreate (DirectoryWatcher fw) p))
         else PollEvent (fst (Recreate (DirectoryWatcher fw) p))
                (snd (Recreate (DirectoryWatcher fw) p)) event)"
      using True by (simp add: PollEvent_def Let_def split_beta)
    with poll have a: "\<not> Dead (fst (Recreate (DirectoryWatcher fw) p))"
      and e: "PollEvent (fst (Recreate (DirectoryWatcher fw) p))
                (snd (Recreate (DirectoryWatcher fw) p)) event = Inr (True, event1, dw1, p1)"
      by (auto split: if_splits)
    from alive [OF a e] recreate [of "DirectoryWatcher fw" p] a show ?thesis
      by (cases "kernel_read p"; cases "kernel_add_watch p") auto
  qed
qed

declare file_PollEvent.simps [simp del]

subsection \<open>Notions used in the statements\<close>

text \<open>
  The events that \<^verbatim>\<open>ParseEvent\<close> appends for one notification (none or one), and
  the mask that \<^verbatim>\<open>Create\<close> passes to \<^verbatim>\<open>inotify_add_watch\<close>.
\<close>

definition classify :: "string \<Rightarrow> nat \<Rightarrow> directory_event list" where
  "classify buf off =
    (if ev_mask buf off AND DeadFlags \<noteq> 0
       then [\<lparr>Type = watch_directory_destroyed, Name = []\<rparr>]
     else if ev_mask buf off AND FileCreatedFlags \<noteq> 0
       then [\<lparr>Type = file_created, Name = std_string (ev_name buf off)\<rparr>]
     else if ev_mask buf off AND FileDeletedFlags \<noteq> 0
       then [\<lparr>Type = file_deleted, Name = std_string (ev_name buf off)\<rparr>]
     else if ev_mask buf off AND FileModifiedFlags \<noteq> 0
       then [\<lparr>Type = file_modified, Name = std_string (ev_name buf off)\<rparr>]
     else [])"

text \<open>
  The name a notification carries: its name field is the \<^verbatim>\<open>len\<close> bytes behind the
  header, and holds the name followed by at least one zero byte; a notification without a
  name has \<^verbatim>\<open>len\<close> = 0.
\<close>

definition name_field :: "string \<Rightarrow> nat \<Rightarrow> string" where
  "name_field buf off = take (unat (ev_len buf off)) (drop (off + 16) buf)"

definition has_name :: "string \<Rightarrow> nat \<Rightarrow> bool" where
  "has_name buf off \<longleftrightarrow> CHR 0x00 \<in> set (name_field buf off)"

definition notification_name :: "string \<Rightarrow> nat \<Rightarrow> string" where
  "notification_name buf off = takeWhile (\<lambda>c. c \<noteq> CHR 0x00) (name_field buf off)"

definition add_watch_flags :: uint32 where
  "add_watch_flags = FileCreatedFlags OR FileDeletedFlags OR FileModifiedFlags"

text \<open>What \<^verbatim>\<open>Create\<close> returns to \<^verbatim>\<open>Recreate\<close>.\<close>

definition recreate_result :: "generic_directory_watch \<Rightarrow> inotify_watch_pool \<Rightarrow> create_result" where
  "recreate_result w p = fst (Create (Destroy p (NativeHandle w)) (c_str (Path w)))"

text \<open>The destructor \<^verbatim>\<open>~generic_directory_watch()\<close>: it calls \<^verbatim>\<open>Destroy()\<close>.\<close>

definition generic_directory_watch_delete ::
  "generic_directory_watch \<Rightarrow> inotify_watch_pool \<Rightarrow> inotify_watch_pool" where
  "generic_directory_watch_delete w p = snd (watch_Destroy w p)"

text \<open>
  The system calls of one \<^verbatim>\<open>Recreate\<close>: \<^verbatim>\<open>Destroy\<close> removes the old
  registration unless the handle is the sentinel, then \<^verbatim>\<open>Create\<close> registers the
  path.
\<close>

definition recreate_calls :: "generic_directory_watch \<Rightarrow> syscall list" where
  "recreate_calls w =
     (if NativeHandle w = - 1 then [] else [inotify_rm_watch (NativeHandle w)])
       @ [inotify_add_watch (c_str (Path w)) add_watch_flags]"

text \<open>
  A pool as its constructor leaves it (no queue yet), in front of a kernel that will give
  the listed answers; the buffer is the zeroed array of \<^verbatim>\<open>calloc(1, 4096)\<close>. The
  constructor's \<^verbatim>\<open>inotify_init1(IN_NONBLOCK)\<close> opens the
  descriptor; the calls on the descriptor are recorded from here on, and a descriptor that
  could not be opened is a kernel whose every answer is -1.
\<close>

definition inotify_watch_pool_new :: "(int32 \<times> int32) list \<Rightarrow> read_result list \<Rightarrow> inotify_watch_pool" where
  "inotify_watch_pool_new adds reads =
     \<lparr>events = Map.empty, eventBuffer = replicate 4096 (CHR 0x00),
      kernel_add_watch = adds, kernel_read = reads, syscalls = []\<rparr>"

text \<open>
  The pool's queues hold destruction events only with the empty name. A pool fresh from
  its constructor has this property and every operation keeps it, since
  \<^verbatim>\<open>ParseEvent\<close> is the only writer.
\<close>

definition destroyed_unnamed :: "inotify_watch_pool \<Rightarrow> bool" where
  "destroyed_unnamed p \<longleftrightarrow>
     (\<forall>h. \<forall>e \<in> set (queue p h). Type e = watch_directory_destroyed \<longrightarrow> Name e = [])"

subsection \<open>States on which the model is run\<close>

text \<open>
  The bytes of a notification as the kernel writes it: a header whose \<^verbatim>\<open>wd\<close> and
  \<^verbatim>\<open>len\<close> fit one byte and whose \<^verbatim>\<open>mask\<close> fits two, with cookie 0, and
  the name field. The name field of \<open>named s\<close> is the name padded with zero bytes to
  16 bytes; a notification without a name has \<^verbatim>\<open>len\<close> = 0 and no name field.
\<close>

definition notification :: "char \<Rightarrow> char \<Rightarrow> char \<Rightarrow> char \<Rightarrow> string \<Rightarrow> string" where
  "notification wd0 mask0 mask1 len0 field =
     [wd0, CHR 0x00, CHR 0x00, CHR 0x00, mask0, mask1, CHR 0x00, CHR 0x00,
      CHR 0x00, CHR 0x00, CHR 0x00, CHR 0x00, len0, CHR 0x00, CHR 0x00, CHR 0x00] @ field"

definition named :: "string \<Rightarrow> string" where
  "named s = s @ replicate (16 - length s) (CHR 0x00)"

text \<open>
  One read of seven notifications. Under descriptor 3, for \<^verbatim>\<open>a.txt\<close>: the masks
  \<^verbatim>\<open>IN_IGNORED | IN_CREATE | IN_MODIFY\<close> (0x8102),
  \<^verbatim>\<open>IN_MOVED_TO | IN_DELETE | IN_MODIFY\<close> (0x0282),
  \<^verbatim>\<open>IN_MOVED_FROM | IN_CLOSE_WRITE\<close> (0x0048) and \<^verbatim>\<open>IN_CLOSE_WRITE\<close> (0x0008),
  then \<^verbatim>\<open>IN_DELETE_SELF\<close> (0x0400) without a name. Under descriptor 1, a watched
  regular file: two \<^verbatim>\<open>IN_MODIFY\<close> (0x0002) without a name. \<open>sample_pool\<close> is a
  fresh pool after that read.
\<close>

definition sample_read :: string where
  "sample_read =
     notification (CHR 0x03) (CHR 0x02) (CHR 0x81) (CHR 0x10) (named ''a.txt'') @
     notification (CHR 0x03) (CHR 0x82) (CHR 0x02) (CHR 0x10) (named ''a.txt'') @
     notification (CHR 0x03) (CHR 0x48) (CHR 0x00) (CHR 0x10) (named ''a.txt'') @
     notification (CHR 0x03) (CHR 0x08) (CHR 0x00) (CHR 0x10) (named ''a.txt'') @
     notification (CHR 0x03) (CHR 0x00) (CHR 0x04) (CHR 0x00) [] @
     notification (CHR 0x01) (CHR 0x02) (CHR 0x00) (CHR 0x00) [] @
     notification (CHR 0x01) (CHR 0x02) (CHR 0x00) (CHR 0x00) []"

definition sample_pool :: inotify_watch_pool where
  "sample_pool = snd (sys_read (inotify_watch_pool_new [] [read_bytes sample_read]))"

text \<open>
  Two constructions, after the end-to-end scenarios of the specification: a watch on a
  directory \<^verbatim>\<open>d\<close> that the kernel registers as descriptor 1, then reports as gone
  (\<^verbatim>\<open>IN_IGNORED\<close>, 0x8000, no name), then registers again as descriptor 2 with
  a file created in it (\<^verbatim>\<open>IN_CREATE\<close>, 0x0100); and a watch on a path that does not exist. \<open>after_destroyed\<close> is the first
  scenario after the poll that delivers the destruction event.
\<close>

definition read_ignored_1 :: string where
  "read_ignored_1 = notification (CHR 0x01) (CHR 0x00) (CHR 0x80) (CHR 0x00) []"

definition read_created_a_2 :: string where
  "read_created_a_2 = notification (CHR 0x02) (CHR 0x00) (CHR 0x01) (CHR 0x10) (named ''a.txt'')"

definition scenario_destroyed :: "generic_directory_watch \<times> inotify_watch_pool" where
  "scenario_destroyed =
     generic_directory_watch_new ''d''
       (inotify_watch_pool_new [(1, 0), (2, 0)]
          [read_bytes read_ignored_1, read_bytes read_created_a_2])"

definition scenario_missing :: "generic_directory_watch \<times> inotify_watch_pool" where
  "scenario_missing = generic_directory_watch_new ''nowhere'' (inotify_watch_pool_new [] [])"

definition after_destroyed :: "generic_directory_watch \<times> inotify_watch_pool" where
  "after_destroyed =
    (\<lparr>Path = ''d'', NativeHandle = 1, Ticket = 1, Dead = True\<rparr>,
     \<lparr>events = [1 \<mapsto> [\<lparr>Type = watch_directory_destroyed, Name = []\<rparr>]],
      eventBuffer = read_ignored_1 @ replicate 4080 (CHR 0x00),
      kernel_add_watch = [(2, 0)],
      kernel_read = [read_bytes read_created_a_2],
      syscalls = [inotify_add_watch ''d'' add_watch_flags, read_inotify]\<rparr>)"

text \<open>
  Two more: a watch whose directory gets two notifications in one read
  (\<^verbatim>\<open>IN_CREATE\<close> of \<^verbatim>\<open>a.txt\<close>, \<^verbatim>\<open>IN_MODIFY\<close> of \<^verbatim>\<open>b.txt\<close>), polled three
  times (\<open>after_two_files\<close> is the state after the three polls); and the first scenario
  with a kernel that has nothing to report after the recreation.
\<close>

definition read_two_files :: string where
  "read_two_files =
     notification (CHR 0x01) (CHR 0x00) (CHR 0x01) (CHR 0x10) (named ''a.txt'') @
     notification (CHR 0x01) (CHR 0x02) (CHR 0x00) (CHR 0x10) (named ''b.txt'')"




text \<open>
  A pool whose queue for descriptor 1 has grown to \<open>2 ^ 32\<close> entries (queues are never
  pruned), in front of a kernel that answers the next \<^verbatim>\<open>inotify_add_watch\<close> with
  descriptor 1 again, as it does for a directory that the same pool already watches.
\<close>

definition backlog_pool :: inotify_watch_pool where
  "backlog_pool =
     \<lparr>events = [1 \<mapsto> replicate 4294967296 \<lparr>Type = file_created, Name = ''old''\<rparr>],
      eventBuffer = replicate 4096 (CHR 0x00),
      kernel_add_watch = [(1, 0)], kernel_read = [], syscalls = []\<rparr>"

text \<open>
  File watchers: on \<^verbatim>\<open>d/a.txt\<close>, with notifications for the creation of
  \<^verbatim>\<open>b.txt\<close>, for the deletion of \<^verbatim>\<open>a.txt\<close> (\<^verbatim>\<open>IN_DELETE\<close>, 0x0200)
  and for the loss of the directory (\<open>after_file_poll\<close> is the state after the first
  poll); and on \<^verbatim>\<open>d/\<close>, a path whose filename part is empty.
\<close>

definition read_file :: string where
  "read_file =
     notification (CHR 0x01) (CHR 0x00) (CHR 0x01) (CHR 0x10) (named ''b.txt'') @
     notification (CHR 0x01) (CHR 0x00) (CHR 0x02) (CHR 0x10) (named ''a.txt'') @
     notification (CHR 0x01) (CHR 0x00) (CHR 0x80) (CHR 0x00) []"

definition read_file_unnamed :: string where
  "read_file_unnamed =
     notification (CHR 0x01) (CHR 0x00) (CHR 0x01) (CHR 0x10) (named ''b.txt'') @
     notification (CHR 0x01) (CHR 0x00) (CHR 0x80) (CHR 0x00) []"

definition scenario_file :: "generic_file_watcher \<times> inotify_watch_pool" where
  "scenario_file =
     generic_file_watcher_new ''d/a.txt''
       (inotify_watch_pool_new [(1, 0)]
          [read_bytes read_file])"

definition scenario_file_unnamed :: "generic_file_watcher \<times> inotify_watch_pool" where
  "scenario_file_unnamed =
     generic_file_watcher_new ''d/''
       (inotify_watch_pool_new [(1, 0)]
          [read_bytes read_file_unnamed])"

definition after_file_poll :: "generic_file_watcher \<times> inotify_watch_pool" where
  "after_file_poll =
     (\<lparr>DirectoryWatcher = \<lparr>Path = ''d/'', NativeHandle = 1, Ticket = 2, Dead = False\<rparr>,
       Filename = ''a.txt''\<rparr>,
      \<lparr>events = [1 \<mapsto> [\<lparr>Type = file_created, Name = ''b.txt''\<rparr>,
                        \<lparr>Type = file_deleted, Name = ''a.txt''\<rparr>,
                        \<lparr>Type = watch_directory_destroyed, Name = []\<rparr>]],
       eventBuffer = read_file @ replicate 4016 (CHR 0x00),
       kernel_add_watch = [], kernel_read = [],
       syscalls = [inotify_add_watch ''d/'' add_watch_flags, read_inotify, read_inotify]\<rparr>)"

text \<open>
  The kernel's report that its queue overflowed: \<^verbatim>\<open>IN_Q_OVERFLOW\<close> (0x4000) with
  the descriptor -1 and no name.
\<close>

definition read_overflow :: string where
  "read_overflow =
     [CHR 0xFF, CHR 0xFF, CHR 0xFF, CHR 0xFF, CHR 0x00, CHR 0x40, CHR 0x00, CHR 0x00,
      CHR 0x00, CHR 0x00, CHR 0x00, CHR 0x00, CHR 0x00, CHR 0x00, CHR 0x00, CHR 0x00]"

section \<open>Path splitting\<close>

lemma rscan_None: "rscan cs d = None \<longleftrightarrow> (\<forall>c \<in> set cs. \<not> is_separator c)"
  by (induction cs arbitrary: d) auto

lemma rscan_Some:
  "rscan cs d = Some k \<Longrightarrow>
     d \<le> k \<and> k - d < length cs \<and> is_separator (cs ! (k - d)) \<and>
     (\<forall>c \<in> set (take (k - d) cs). \<not> is_separator c)"
proof (induction cs arbitrary: d)
  case Nil
  then show ?case by simp
next
  case (Cons c cs)
  show ?case
  proof (cases "is_separator c")
    case True
    with Cons.prems show ?thesis by simp
  next
    case False
    with Cons.prems have r: "rscan cs (Suc d) = Some k" by simp
    from Cons.IH [OF r] have ih: "Suc d \<le> k" "k - Suc d < length cs"
      "is_separator (cs ! (k - Suc d))"
      "\<forall>c \<in> set (take (k - Suc d) cs). \<not> is_separator c"
      by simp_all
    from ih(1) have kd: "k - d = Suc (k - Suc d)" by simp
    show ?thesis using ih False by (simp add: kd)
  qed
qed

lemma rscan_rev_split:
  assumes "rscan (rev p) 0 = Some k"
  shows "k < length p"
    and "is_separator (p ! (length p - Suc k))"
    and "\<forall>c \<in> set (drop (length p - k) p). \<not> is_separator c"
proof -
  from rscan_Some [OF assms] have k: "k < length p"
    and s: "is_separator (rev p ! k)"
    and n: "\<forall>c \<in> set (take k (rev p)). \<not> is_separator c"
    by simp_all
  show "k < length p" by (rule k)
  from s k show "is_separator (p ! (length p - Suc k))"
    by (simp add: rev_nth)
  have "set (drop (length p - k) p) = set (take k (rev p))"
    by (simp add: take_rev)
  with n show "\<forall>c \<in> set (drop (length p - k) p). \<not> is_separator c"
    by simp
qed

text \<open>
  C9. For a path with at least one separator the two halves concatenate to the path, the
  directory half is non-empty and ends with a separator, and the filename half holds no
  separator (so the directory ends at the last separator of the path). For a path with
  no separator both functions return the empty string.
\<close>

theorem GetDirectory_GetFilename_split:
  "(if \<exists>c \<in> set p. is_separator c
    then GetDirectory p @ GetFilename p = p \<and>
         GetDirectory p \<noteq> [] \<and> is_separator (last (GetDirectory p)) \<and>
         list_all (\<lambda>c. \<not> is_separator c) (GetFilename p)
    else GetDirectory p = [] \<and> GetFilename p = [])"
proof (cases "rscan (rev p) 0")
  case None
  then have "\<forall>c \<in> set p. \<not> is_separator c"
    using rscan_None [of "rev p" 0] by simp
  with None show ?thesis
    by (simp add: GetDirectory_def GetFilename_def)
next
  case (Some k)
  note sp = rscan_rev_split [OF Some]
  have ex: "\<exists>c \<in> set p. is_separator c"
    using sp(1,2) by (metis diff_less nth_mem zero_less_Suc length_greater_0_conv list.size(3) not_less_zero)
  have d: "GetDirectory p = take (length p - k) p" and f: "GetFilename p = drop (length p - k) p"
    using Some by (simp_all add: GetDirectory_def GetFilename_def)
  have ne: "GetDirectory p \<noteq> []"
    using sp(1) by (auto simp: d)
  have "last (take (length p - k) p) = take (length p - k) p ! (length (take (length p - k) p) - 1)"
    using ne unfolding d by (rule last_conv_nth)
  also have "\<dots> = p ! (length p - Suc k)"
    using sp(1) by simp
  finally have "last (take (length p - k) p) = p ! (length p - Suc k)" .
  with sp(2) have l: "is_separator (last (GetDirectory p))"
    by (simp add: d)
  have n: "list_all (\<lambda>c. \<not> is_separator c) (GetFilename p)"
    using sp(3) by (simp add: f list_all_iff)
  show ?thesis using ex ne l n by (simp add: d f)
qed

theorem GetDirectory_GetFilename_split_witness:
  "GetDirectory (''d/sub'' @ [CHR 0x5C] @ ''a.txt'') = ''d/sub'' @ [CHR 0x5C] \<and>
   GetFilename (''d/sub'' @ [CHR 0x5C] @ ''a.txt'') = ''a.txt'' \<and>
   GetDirectory ''a.txt'' = [] \<and> GetFilename ''a.txt'' = []"
  using GetDirectory_GetFilename_split [of "''d/sub'' @ [CHR 0x5C] @ ''a.txt''"]
    GetDirectory_GetFilename_split [of "''a.txt''"]
  by (simp add: is_separator_def GetDirectory_def GetFilename_def)


section \<open>The pool\<close>

subsection \<open>Effect of each operation on the queues and on the kernel script\<close>

lemma subscript_fst: "fst (subscript p k) = queue p k"
  by (simp add: subscript_def queue_def split: option.split)

lemma subscript_queue: "queue (snd (subscript p k)) h = queue p h"
  by (simp add: subscript_def queue_def split: option.split)

lemma subscript_kernel:
  "kernel_add_watch (snd (subscript p k)) = kernel_add_watch p"
  "kernel_read (snd (subscript p k)) = kernel_read p"
  "syscalls (snd (subscript p k)) = syscalls p"
  "eventBuffer (snd (subscript p k)) = eventBuffer p"
  by (simp_all add: subscript_def split: option.split)

lemma emplace_back_queue:
  "queue (emplace_back p k e) h = (if h = k then queue p k @ [e] else queue p h)"
  by (simp add: emplace_back_def subscript_def queue_def split: option.split)

lemma emplace_back_kernel:
  "kernel_add_watch (emplace_back p k e) = kernel_add_watch p"
  "kernel_read (emplace_back p k e) = kernel_read p"
  "syscalls (emplace_back p k e) = syscalls p"
  "eventBuffer (emplace_back p k e) = eventBuffer p"
  by (simp_all add: emplace_back_def subscript_def split: option.split)

lemma ParseEvent_queue:
  "queue (ParseEvent p off) h =
     (if h = ev_wd (eventBuffer p) off
      then queue p h @ classify (eventBuffer p) off else queue p h)"
  by (simp add: ParseEvent_def classify_def split_beta Let_def emplace_back_queue subscript_queue
      directory_event_default_def)

lemma ParseEvent_kernel:
  "kernel_add_watch (ParseEvent p off) = kernel_add_watch p"
  "kernel_read (ParseEvent p off) = kernel_read p"
  "syscalls (ParseEvent p off) = syscalls p"
  "eventBuffer (ParseEvent p off) = eventBuffer p"
  by (simp_all add: ParseEvent_def split_beta Let_def emplace_back_kernel subscript_kernel)

lemma ParseEvent_prefix: "prefix (queue p h) (queue (ParseEvent p off) h)"
  by (simp add: ParseEvent_queue)

text \<open>
  Facts about the loop of \<^verbatim>\<open>Update\<close> go by induction along its own recursion: the
  loop keeps whatever every \<^verbatim>\<open>ParseEvent\<close> keeps.
\<close>

lemma Update_loop_step:
  "offset < len \<Longrightarrow>
     Update_loop p len offset =
       Update_loop (ParseEvent p offset) len (offset + 16 + unat (ev_len (eventBuffer p) offset))"
  by (subst Update_loop.simps) simp

lemma Update_loop_done: "\<not> offset < len \<Longrightarrow> Update_loop p len offset = p"
  by (subst Update_loop.simps) simp

lemma Update_loop_kernel:
  "kernel_add_watch (Update_loop p len offset) = kernel_add_watch p \<and>
   kernel_read (Update_loop p len offset) = kernel_read p \<and>
   syscalls (Update_loop p len offset) = syscalls p \<and>
   eventBuffer (Update_loop p len offset) = eventBuffer p"
proof (induction p len offset rule: Update_loop.induct)
  case (1 p len offset)
  show ?case
  proof (cases "offset < len")
    case True
    with "1.IH" show ?thesis
      by (simp add: Update_loop_step ParseEvent_kernel)
  next
    case False
    then show ?thesis
      by (simp add: Update_loop_done)
  qed
qed

lemma Update_loop_prefix: "prefix (queue p h) (queue (Update_loop p len offset) h)"
proof (induction p len offset rule: Update_loop.induct)
  case (1 p len offset)
  show ?case
  proof (cases "offset < len")
    case True
    have "prefix (queue p h) (queue (ParseEvent p offset) h)"
      by (rule ParseEvent_prefix)
    also from "1.IH" True
    have "prefix \<dots> (queue (Update_loop (ParseEvent p offset) len
             (offset + 16 + unat (ev_len (eventBuffer p) offset))) h)"
      by simp
    finally show ?thesis
      using True by (simp add: Update_loop_step)
  next
    case False
    then show ?thesis
      by (simp add: Update_loop_done)
  qed
qed

lemma sys_read_queue: "queue (snd (sys_read p)) h = queue p h"
  by (simp add: sys_read_def queue_def Let_def split: list.split read_result.split)

lemma sys_read_fields:
  "events (snd (sys_read p)) = events p"
  "kernel_add_watch (snd (sys_read p)) = kernel_add_watch p"
  "kernel_read (snd (sys_read p)) = tl (kernel_read p)"
  "syscalls (snd (sys_read p)) = syscalls p @ [read_inotify]"
  by (simp_all add: sys_read_def Let_def split: list.split read_result.split)

lemma Update_prefix: "prefix (queue p h) (queue (Update p) h)"
proof -
  have "prefix (queue (snd (sys_read p)) h) (queue (Update p) h)"
    by (simp add: Update_def split_beta Update_loop_prefix split: option.split)
  then show ?thesis
    by (simp add: sys_read_queue)
qed

lemma Update_kernel:
  "kernel_add_watch (Update p) = kernel_add_watch p"
  "kernel_read (Update p) = tl (kernel_read p)"
  "syscalls (Update p) = syscalls p @ [read_inotify]"
  by (simp_all add: Update_def split_beta Update_loop_kernel sys_read_fields split: option.split)

lemma Destroy_fields:
  "events (Destroy p i) = events p"
  "eventBuffer (Destroy p i) = eventBuffer p"
  "queue (Destroy p i) h = queue p h"
  "kernel_add_watch (Destroy p i) = kernel_add_watch p"
  "kernel_read (Destroy p i) = kernel_read p"
  "syscalls (Destroy p i) = syscalls p @ (if i = - 1 then [] else [inotify_rm_watch i])"
  by (simp_all add: Destroy_def queue_def)

lemma add_watch_fields:
  "events (snd (sys_inotify_add_watch p f fl)) = events p"
  "queue (snd (sys_inotify_add_watch p f fl)) h = queue p h"
  "kernel_add_watch (snd (sys_inotify_add_watch p f fl)) = tl (kernel_add_watch p)"
  "kernel_read (snd (sys_inotify_add_watch p f fl)) = kernel_read p"
  "syscalls (snd (sys_inotify_add_watch p f fl)) = syscalls p @ [inotify_add_watch f fl]"
  "fst (sys_inotify_add_watch p f fl) = (case kernel_add_watch p of [] \<Rightarrow> (- 1, ENOENT) | r # rs \<Rightarrow> r)"
  by (simp_all add: sys_inotify_add_watch_def Let_def queue_def split: list.split)

lemma Create_fields:
  "queue (snd (Create p f)) h = queue p h"
  "kernel_add_watch (snd (Create p f)) = tl (kernel_add_watch p)"
  "kernel_read (snd (Create p f)) = kernel_read p"
  "syscalls (snd (Create p f)) = syscalls p @ [inotify_add_watch f add_watch_flags]"
  by (simp_all add: Create_def Let_def split_beta subscript_queue subscript_kernel add_watch_fields
      add_watch_flags_def)

lemma Create_result:
  "fst (Create p f) =
     (let (handle, errno) = fst (sys_inotify_add_watch p f add_watch_flags)
      in \<lparr>Error = (if handle = - 1 then errno else 0), Handle = handle,
           Ticket0 = vec_size (queue p handle)\<rparr>)"
  by (simp add: Create_def Let_def split_beta subscript_fst add_watch_fields add_watch_flags_def)

lemma GetEvents_fields:
  "fst (GetEvents p k) = queue p k"
  "queue (snd (GetEvents p k)) h = queue p h"
  "kernel_add_watch (snd (GetEvents p k)) = kernel_add_watch p"
  "kernel_read (snd (GetEvents p k)) = kernel_read p"
  "syscalls (snd (GetEvents p k)) = syscalls p"
  by (simp_all add: GetEvents_def subscript_fst subscript_queue subscript_kernel)


subsection \<open>Classification of a notification\<close>

lemmas inotify_bits = IN_MODIFY_def IN_CLOSE_WRITE_def IN_MOVED_FROM_def IN_MOVED_TO_def
  IN_CREATE_def IN_DELETE_def IN_UNMOUNT_def IN_Q_OVERFLOW_def IN_IGNORED_def
  DeadFlags_def FileCreatedFlags_def FileDeletedFlags_def FileModifiedFlags_def

lemmas event_fields = ev_wd_def ev_mask_def ev_cookie_def ev_len_def ev_name_def field32_def
  byte_at_def std_string_def name_field_def has_name_def notification_name_def
  notification_def named_def MaxEventSize_def

text \<open>
  The string read at \<^verbatim>\<open>event.name\<close> is the notification's name when the name field
  holds a zero byte, as it does in every notification that carries a name.
\<close>

lemma std_string_name_field:
  assumes "has_name buf off"
  shows "std_string (ev_name buf off) = notification_name buf off"
proof -
  let ?mem = "drop (off + 16) buf"
  let ?n = "unat (ev_len buf off)"
  from assms have "CHR 0x00 \<in> set (take ?n ?mem)"
    by (simp add: has_name_def name_field_def)
  then have "takeWhile (\<lambda>c. c \<noteq> CHR 0x00) (take ?n ?mem @ drop ?n ?mem)
      = takeWhile (\<lambda>c. c \<noteq> CHR 0x00) (take ?n ?mem)"
    by (rule takeWhile_append1) simp
  moreover have "take ?n ?mem @ drop ?n ?mem = ?mem"
    by (rule append_take_drop_id)
  ultimately have "takeWhile (\<lambda>c. c \<noteq> CHR 0x00) ?mem
      = takeWhile (\<lambda>c. c \<noteq> CHR 0x00) (take ?n ?mem)"
    by (simp only:)
  then show ?thesis
    by (simp add: std_string_def ev_name_def notification_name_def name_field_def)
qed

lemma sample_pool_eq:
  "sample_pool =
     \<lparr>events = Map.empty, eventBuffer = sample_read @ replicate 3920 (CHR 0x00),
      kernel_add_watch = [], kernel_read = [], syscalls = [read_inotify]\<rparr>"
  by (simp add: sample_pool_def sys_read_def inotify_watch_pool_new_def sample_read_def
      notification_def named_def MaxEventSize_def Let_def)

text \<open>
  C1. For the notification at any offset of the buffer, \<^verbatim>\<open>ParseEvent\<close> appends to
  the queue of the notification's descriptor, by fixed precedence: a destroyed event with
  the empty name when a bit of \<open>DeadFlags\<close> is set, whatever the other bits and the
  name; else a created event when a bit of \<open>FileCreatedFlags\<close> is set; else a deleted
  event; else a modified event; and nothing when no bit of the four sets is set. The
  queues of all other descriptors stay as they are. The name of a created, deleted or
  modified event is the string read at \<^verbatim>\<open>event.name\<close>, which is the notification's
  name whenever the notification carries one. The kernel names every notification of the
  creation and deletion classes, which are about entries of a watched directory; a
  notification without a name (a modification of a watched regular file) gets the bytes
  that follow its header up to the first zero byte.
\<close>

theorem ParseEvent_precedence:
  "queue (ParseEvent p off) (ev_wd (eventBuffer p) off) =
     queue p (ev_wd (eventBuffer p) off) @
     (if ev_mask (eventBuffer p) off AND DeadFlags \<noteq> 0
        then [\<lparr>Type = watch_directory_destroyed, Name = []\<rparr>]
      else if ev_mask (eventBuffer p) off AND FileCreatedFlags \<noteq> 0
        then [\<lparr>Type = file_created, Name = std_string (ev_name (eventBuffer p) off)\<rparr>]
      else if ev_mask (eventBuffer p) off AND FileDeletedFlags \<noteq> 0
        then [\<lparr>Type = file_deleted, Name = std_string (ev_name (eventBuffer p) off)\<rparr>]
      else if ev_mask (eventBuffer p) off AND FileModifiedFlags \<noteq> 0
        then [\<lparr>Type = file_modified, Name = std_string (ev_name (eventBuffer p) off)\<rparr>]
      else []) \<and>
   (\<forall>h. h \<noteq> ev_wd (eventBuffer p) off \<longrightarrow> queue (ParseEvent p off) h = queue p h) \<and>
   std_string (ev_name (eventBuffer p) off)
     = takeWhile (\<lambda>c. c \<noteq> CHR 0x00) (drop (off + 16) (eventBuffer p)) \<and>
   (has_name (eventBuffer p) off \<longrightarrow>
      std_string (ev_name (eventBuffer p) off) = notification_name (eventBuffer p) off)"
  by (simp add: ParseEvent_queue classify_def std_string_name_field)
     (simp add: std_string_def ev_name_def)

theorem ParseEvent_precedence_witness:
  "queue (ParseEvent sample_pool 0) 3 = [\<lparr>Type = watch_directory_destroyed, Name = []\<rparr>] \<and>
   has_name (eventBuffer sample_pool) 32 \<and>
   notification_name (eventBuffer sample_pool) 32 = ''a.txt'' \<and>
   queue (ParseEvent sample_pool 32) 3 = [\<lparr>Type = file_created, Name = ''a.txt''\<rparr>] \<and>
   queue (ParseEvent sample_pool 64) 3 = [\<lparr>Type = file_deleted, Name = ''a.txt''\<rparr>] \<and>
   queue (ParseEvent sample_pool 96) 3 = [\<lparr>Type = file_modified, Name = ''a.txt''\<rparr>] \<and>
   queue (ParseEvent sample_pool 128) 3 = [] \<and>
   queue (ParseEvent sample_pool 32) 4 = [] \<and>
   \<not> has_name (eventBuffer sample_pool) 144 \<and>
   queue (ParseEvent sample_pool 144) 1 = [\<lparr>Type = file_modified, Name = [CHR 0x01]\<rparr>] \<and>
   queue (ParseEvent sample_pool 160) 1 = [\<lparr>Type = file_modified, Name = []\<rparr>]"
  using ParseEvent_precedence [of sample_pool 0] ParseEvent_precedence [of sample_pool 32]
    ParseEvent_precedence [of sample_pool 64] ParseEvent_precedence [of sample_pool 96]
    ParseEvent_precedence [of sample_pool 128] ParseEvent_precedence [of sample_pool 144]
    ParseEvent_precedence [of sample_pool 160]
  by (simp add: sample_pool_eq sample_read_def inotify_bits event_fields queue_def)

subsection \<open>Queues only grow\<close>

text \<open>
  C6. Under each of \<^verbatim>\<open>Create\<close>, \<^verbatim>\<open>Destroy\<close>, \<^verbatim>\<open>Update\<close> and
  \<^verbatim>\<open>GetEvents\<close>, and under the private \<^verbatim>\<open>ParseEvent\<close>, the queue of every
  handle \<open>h\<close> keeps its old content as a prefix: entries are appended, never removed,
  replaced or reordered. \<^verbatim>\<open>GetEvents\<close> returns the whole queue of its handle; it
  has no cursor argument.
\<close>

theorem pool_queues_append_only:
  "prefix (queue p h) (queue (snd (Create p file)) h) \<and>
   prefix (queue p h) (queue (Destroy p ident) h) \<and>
   prefix (queue p h) (queue (Update p) h) \<and>
   prefix (queue p h) (queue (snd (GetEvents p k)) h) \<and>
   prefix (queue p h) (queue (ParseEvent p off) h) \<and>
   fst (GetEvents p k) = queue p k"
  by (simp add: Create_fields Destroy_fields Update_prefix GetEvents_fields ParseEvent_queue)

subsection \<open>Lookups that create their key\<close>

text \<open>
  C10. \<^verbatim>\<open>GetEvents\<close> has a result for every handle: the stored vector, or the empty
  sequence for a key the map does not hold, and afterwards the map holds the key with
  that vector. A \<^verbatim>\<open>Create\<close> that returns the handle -1 returns as ticket the size
  of the queue keyed by -1.
\<close>

theorem GetEvents_total:
  "fst (GetEvents p h) = (case events p h of None \<Rightarrow> [] | Some vec \<Rightarrow> vec) \<and>
   events (snd (GetEvents p h)) h = Some (fst (GetEvents p h)) \<and>
   (Handle (fst (Create p file)) = - 1 \<longrightarrow>
      Ticket0 (fst (Create p file)) = vec_size (queue p (- 1)))"
  by (simp add: GetEvents_def subscript_def queue_def Create_result split_beta Let_def
      split: option.split)

lemma descriptor_minus_one: "(4294967295 :: int32) = - 1"
  by simp

theorem GetEvents_total_witness:
  "fst (GetEvents (inotify_watch_pool_new [] []) 7) = [] \<and>
   events (snd (GetEvents (inotify_watch_pool_new [] []) 7)) 7 = Some [] \<and>
   queue (Update (inotify_watch_pool_new [(- 1, 13)] [read_bytes read_overflow])) (- 1)
     = [\<lparr>Type = watch_directory_destroyed, Name = []\<rparr>] \<and>
   fst (Create (Update (inotify_watch_pool_new [(- 1, 13)] [read_bytes read_overflow])) ''d'')
     = \<lparr>Error = 13, Handle = - 1, Ticket0 = 1\<rparr>"
  using GetEvents_total [of "inotify_watch_pool_new [] []" 7 "''d''"]
    GetEvents_total [of "Update (inotify_watch_pool_new [(- 1, 13)] [read_bytes read_overflow])"
      7 "''d''"]
  by (simp add: inotify_bits event_fields read_overflow_def inotify_watch_pool_new_def
      Create_def Update_def sys_read_def Update_loop_step Update_loop_done ParseEvent_def
      emplace_back_def subscript_def sys_inotify_add_watch_def vec_size_def queue_def Let_def
      GetEvents_def directory_event_default_def descriptor_minus_one)

section \<open>The directory watch\<close>

subsection \<open>Recreation and one poll\<close>

lemma Recreate_watch:
  "fst (Recreate w p) =
     (if Error (recreate_result w p) = 0
      then w\<lparr>Dead := False, NativeHandle := Handle (recreate_result w p),
             Ticket := ucast (Ticket0 (recreate_result w p))\<rparr>
      else w\<lparr>Dead := True\<rparr>)"
  by (simp add: Recreate_def watch_Destroy_def recreate_result_def split_beta)

lemma Recreate_pool:
  "snd (Recreate w p) = snd (Create (Destroy p (NativeHandle w)) (c_str (Path w)))"
  by (simp add: Recreate_def watch_Destroy_def split_beta)

lemma Recreate_fields:
  "queue (snd (Recreate w p)) h = queue p h"
  "kernel_add_watch (snd (Recreate w p)) = tl (kernel_add_watch p)"
  "kernel_read (snd (Recreate w p)) = kernel_read p"
  "syscalls (snd (Recreate w p)) =
     syscalls p @ (if NativeHandle w = - 1 then [] else [inotify_rm_watch (NativeHandle w)])
       @ [inotify_add_watch (c_str (Path w)) add_watch_flags]"
  by (simp_all add: Recreate_pool Create_fields Destroy_fields)

lemma recreate_result_eq:
  "recreate_result w p =
     (case kernel_add_watch p of
        [] \<Rightarrow> \<lparr>Error = ENOENT, Handle = - 1, Ticket0 = vec_size (queue p (- 1))\<rparr>
      | (handle, errno) # rs \<Rightarrow>
          \<lparr>Error = (if handle = - 1 then errno else 0), Handle = handle,
           Ticket0 = vec_size (queue p handle)\<rparr>)"
  by (simp add: recreate_result_def Create_result add_watch_fields Destroy_fields
      split: list.split prod.split)

lemma at_in_range: "n < vec_size vec \<Longrightarrow> at vec n = Inr (vec ! unat n)"
  by (simp add: at_def)

lemma PollEvent_alive:
  assumes "\<not> Dead w"
  shows "PollEvent w p event =
     (let vec = queue (Update p) (NativeHandle w);
          p3 = snd (GetEvents (Update p) (NativeHandle w))
      in if (scast (Ticket w) :: size_type) \<ge> vec_size vec
         then Inr (False, event, w, p3)
         else Inr (True, vec ! unat (scast (Ticket w) :: size_type),
                (if Type (vec ! unat (scast (Ticket w) :: size_type)) = watch_directory_destroyed
                 then w\<lparr>Ticket := Ticket w + 1, Dead := True\<rparr>
                 else w\<lparr>Ticket := Ticket w + 1\<rparr>), p3))"
  using assms
  by (auto simp: PollEvent_def Let_def split_beta GetEvents_fields at_in_range not_le)

lemma PollEvent_dead:
  assumes "Dead w"
  shows "PollEvent w p event =
     (if Dead (fst (Recreate w p))
      then Inr (False, event, fst (Recreate w p), snd (Recreate w p))
      else PollEvent (fst (Recreate w p)) (snd (Recreate w p)) event)"
  using assms
  by (simp add: PollEvent_def Let_def split_beta)

lemma PollEvent_no_throw: "\<exists>b event' w' p'. PollEvent w p event = Inr (b, event', w', p')"
proof -
  have alive: "\<exists>b event' w' p'. PollEvent v q event = Inr (b, event', w', p')" if "\<not> Dead v" for v q
    using that by (auto simp: PollEvent_alive Let_def)
  show ?thesis
  proof (cases "Dead w")
    case False
    then show ?thesis by (rule alive)
  next
    case True
    show ?thesis
    proof (cases "Dead (fst (Recreate w p))")
      case True
      with \<open>Dead w\<close> show ?thesis by (auto simp: PollEvent_dead)
    next
      case False
      from alive [OF False] \<open>Dead w\<close> False show ?thesis by (simp add: PollEvent_dead)
    qed
  qed
qed

lemma Recreate_syscalls: "syscalls (snd (Recreate w p)) = syscalls p @ recreate_calls w"
  by (simp add: Recreate_fields recreate_calls_def)

lemma Recreate_Dead: "Dead (fst (Recreate w p)) \<longleftrightarrow> Error (recreate_result w p) \<noteq> 0"
  by (simp add: Recreate_watch)

lemma PollEvent_alive_syscalls:
  assumes "\<not> Dead w" and "PollEvent w p event = Inr (b, event', w', p')"
  shows "syscalls p' = syscalls p @ [read_inotify]"
  using assms
  by (auto simp: PollEvent_alive Let_def GetEvents_fields Update_kernel split: if_splits)

lemma PollEvent_syscalls:
  assumes "PollEvent w p event = Inr (b, event', w', p')"
  shows "syscalls p' = syscalls p @
     (if Dead w
      then recreate_calls w @ (if Error (recreate_result w p) = 0 then [read_inotify] else [])
      else [read_inotify])"
proof (cases "Dead w")
  case False
  with PollEvent_alive_syscalls [OF False assms] show ?thesis by simp
next
  case True
  show ?thesis
  proof (cases "Error (recreate_result w p) = 0")
    case ok: True
    then have a: "\<not> Dead (fst (Recreate w p))"
      by (simp add: Recreate_Dead)
    with True assms
    have "PollEvent (fst (Recreate w p)) (snd (Recreate w p)) event = Inr (b, event', w', p')"
      by (simp add: PollEvent_dead)
    from PollEvent_alive_syscalls [OF a this] True ok show ?thesis
      by (simp add: Recreate_syscalls)
  next
    case bad: False
    then have "Dead (fst (Recreate w p))"
      by (simp add: Recreate_Dead)
    with True assms have "p' = snd (Recreate w p)"
      by (simp add: PollEvent_dead)
    with True bad show ?thesis
      by (simp add: Recreate_syscalls)
  qed
qed

lemma PollEvent_true_destroyed:
  assumes "PollEvent w p event = Inr (True, event', w', p')"
  shows "Dead w' \<longleftrightarrow> Type event' = watch_directory_destroyed"
proof -
  have alive: "Dead v' \<longleftrightarrow> Type event' = watch_directory_destroyed"
    if "\<not> Dead v" and "PollEvent v q event = Inr (True, event', v', q')" for v q v' q'
    using that by (auto simp: PollEvent_alive Let_def split: if_splits)
  show ?thesis
  proof (cases "Dead w")
    case False
    from alive [OF False assms] show ?thesis .
  next
    case True
    with assms have a: "\<not> Dead (fst (Recreate w p))"
      and e: "PollEvent (fst (Recreate w p)) (snd (Recreate w p)) event = Inr (True, event', w', p')"
      by (auto simp: PollEvent_dead split: if_splits)
    from alive [OF a e] show ?thesis .
  qed
qed

subsection \<open>Running the model on concrete states\<close>

lemmas run_defs = inotify_bits inotify_watch_pool_new_def
  Create_def Destroy_def Update_def GetEvents_def subscript_def emplace_back_def
  ParseEvent_def sys_inotify_add_watch_def sys_read_def vec_size_def at_def queue_def
  ENOENT_def add_watch_flags_def
  watch_Destroy_def Recreate_def generic_directory_watch_new_def PollEvent_def c_str_def
  directory_event_default_def recreate_calls_def recreate_result_def Let_def
  word_le_nat_alt event_fields Update_loop_step Update_loop_done
  read_ignored_1_def read_created_a_2_def read_two_files_def read_file_def
  read_file_unnamed_def

lemma scenario_destroyed_eq:
  "scenario_destroyed =
    (\<lparr>Path = ''d'', NativeHandle = 1, Ticket = 0, Dead = False\<rparr>,
     \<lparr>events = [1 \<mapsto> []], eventBuffer = replicate 4096 (CHR 0x00),
      kernel_add_watch = [(2, 0)],
      kernel_read = [read_bytes read_ignored_1, read_bytes read_created_a_2],
      syscalls = [inotify_add_watch ''d'' add_watch_flags]\<rparr>)"
  by (simp add: scenario_destroyed_def run_defs)

lemma scenario_missing_eq:
  "scenario_missing =
    (\<lparr>Path = ''nowhere'', NativeHandle = - 1, Ticket = - 1, Dead = True\<rparr>,
     \<lparr>events = [- 1 \<mapsto> []], eventBuffer = replicate 4096 (CHR 0x00),
      kernel_add_watch = [], kernel_read = [],
      syscalls = [inotify_add_watch ''nowhere'' add_watch_flags]\<rparr>)"
  by (simp add: scenario_missing_def run_defs)

lemma scenario_destroyed_poll:
  "PollEvent (fst scenario_destroyed) (snd scenario_destroyed) directory_event_default =
     Inr (True, \<lparr>Type = watch_directory_destroyed, Name = []\<rparr>,
          fst after_destroyed, snd after_destroyed)"
  by (simp add: scenario_destroyed_eq after_destroyed_def run_defs)

subsection \<open>Delivery of a destruction event\<close>

text \<open>
  C2. When \<^verbatim>\<open>PollEvent\<close> returns true with an event of type
  \<open>watch_directory_destroyed\<close>, the watch is dead afterwards; the system calls of
  that call are the recreation at its start (only if the watch was dead on entry) and
  the read of \<^verbatim>\<open>Update\<close>, so nothing is recreated after the delivery; and the next
  call starts with the system calls of a recreation. Conversely, an alive watch whose
  refreshed queue holds a destroyed event at the ticket returns true with that entry.
\<close>

theorem PollEvent_destroyed_delivered:
  "(PollEvent w p event = Inr (True, event', w', p') \<and> Type event' = watch_directory_destroyed \<longrightarrow>
      Dead w' \<and>
      syscalls p' = syscalls p @ (if Dead w then recreate_calls w else []) @ [read_inotify] \<and>
      (\<exists>b2 event2 w2 p2 cs.
         PollEvent w' p' next_event = Inr (b2, event2, w2, p2) \<and>
         syscalls p2 = syscalls p' @ recreate_calls w' @ cs)) \<and>
   (\<not> Dead w \<and>
    (scast (Ticket w) :: size_type) < vec_size (queue (Update p) (NativeHandle w)) \<and>
    Type (queue (Update p) (NativeHandle w) ! unat (scast (Ticket w) :: size_type))
      = watch_directory_destroyed \<longrightarrow>
      PollEvent w p event =
        Inr (True, queue (Update p) (NativeHandle w) ! unat (scast (Ticket w) :: size_type),
             w\<lparr>Ticket := Ticket w + 1, Dead := True\<rparr>,
             snd (GetEvents (Update p) (NativeHandle w))))"
proof (intro conjI impI)
  assume "\<not> Dead w \<and>
    (scast (Ticket w) :: size_type) < vec_size (queue (Update p) (NativeHandle w)) \<and>
    Type (queue (Update p) (NativeHandle w) ! unat (scast (Ticket w) :: size_type))
      = watch_directory_destroyed"
  then show "PollEvent w p event =
        Inr (True, queue (Update p) (NativeHandle w) ! unat (scast (Ticket w) :: size_type),
             w\<lparr>Ticket := Ticket w + 1, Dead := True\<rparr>,
             snd (GetEvents (Update p) (NativeHandle w)))"
    by (simp add: PollEvent_alive Let_def not_le [symmetric])
next
  assume a: "PollEvent w p event = Inr (True, event', w', p') \<and> Type event' = watch_directory_destroyed"
  then have poll: "PollEvent w p event = Inr (True, event', w', p')"
    and ty: "Type event' = watch_directory_destroyed"
    by simp_all
  from PollEvent_true_destroyed [OF poll] ty show dead: "Dead w'"
    by simp
  have "Dead w \<Longrightarrow> Error (recreate_result w p) = 0"
    using poll by (auto simp: PollEvent_dead Recreate_Dead split: if_splits)
  with PollEvent_syscalls [OF poll]
  show "syscalls p' = syscalls p @ (if Dead w then recreate_calls w else []) @ [read_inotify]"
    by auto
  from PollEvent_no_throw [of w' p' next_event] obtain b2 event2 w2 p2
    where next_poll: "PollEvent w' p' next_event = Inr (b2, event2, w2, p2)"
    by blast
  from PollEvent_syscalls [OF next_poll] dead
  have "syscalls p2 = syscalls p' @ recreate_calls w' @
      (if Error (recreate_result w' p') = 0 then [read_inotify] else [])"
    by simp
  with next_poll
  show "\<exists>b2 event2 w2 p2 cs.
         PollEvent w' p' next_event = Inr (b2, event2, w2, p2) \<and>
         syscalls p2 = syscalls p' @ recreate_calls w' @ cs"
    by blast
qed

theorem PollEvent_destroyed_delivered_witness:
  "PollEvent (fst scenario_destroyed) (snd scenario_destroyed) directory_event_default =
     Inr (True, \<lparr>Type = watch_directory_destroyed, Name = []\<rparr>,
          fst after_destroyed, snd after_destroyed) \<and>
   Dead (fst after_destroyed) \<and>
   syscalls (snd after_destroyed) = syscalls (snd scenario_destroyed) @ [read_inotify] \<and>
   (\<exists>b2 event2 w2 p2 cs.
      PollEvent (fst after_destroyed) (snd after_destroyed) directory_event_default
        = Inr (b2, event2, w2, p2) \<and>
      syscalls p2 = syscalls (snd after_destroyed) @
        [inotify_rm_watch 1, inotify_add_watch ''d'' add_watch_flags] @ cs)"
  using PollEvent_destroyed_delivered [of "fst scenario_destroyed" "snd scenario_destroyed"
      directory_event_default "\<lparr>Type = watch_directory_destroyed, Name = []\<rparr>"
      "fst after_destroyed" "snd after_destroyed" directory_event_default]
    scenario_destroyed_poll
  by (simp add: scenario_destroyed_eq after_destroyed_def recreate_calls_def c_str_def)

lemma Recreate_syscalls_prefix:
  "PollEvent w p event = Inr (b, event', w', p') \<Longrightarrow> Dead w \<Longrightarrow>
     \<exists>cs. syscalls p' = syscalls p @ recreate_calls w @ cs"
  by (simp add: PollEvent_syscalls)

subsection \<open>A poll on a dead watch\<close>

text \<open>
  C3. A \<^verbatim>\<open>PollEvent\<close> on a dead watch never throws and starts with the system
  calls of \<^verbatim>\<open>Recreate\<close> (the removal of a stale handle, then the registration).
  If the watch is still dead after \<^verbatim>\<open>Recreate\<close> the call returns false and leaves
  the event parameter as it was. Otherwise the call continues as a poll of the recreated
  watch: it refreshes the pool and returns true exactly when the refreshed queue reaches
  beyond the ticket.
\<close>

theorem PollEvent_dead_recreates_first:
  assumes "Dead w"
  shows "\<exists>b event' w' p'.
     PollEvent w p event = Inr (b, event', w', p') \<and>
     (\<exists>cs. syscalls p' = syscalls p @ recreate_calls w @ cs) \<and>
     (if Dead (fst (Recreate w p))
      then \<not> b \<and> event' = event \<and> w' = fst (Recreate w p) \<and> p' = snd (Recreate w p)
      else PollEvent (fst (Recreate w p)) (snd (Recreate w p)) event = Inr (b, event', w', p') \<and>
           (b \<longleftrightarrow> (scast (Ticket (fst (Recreate w p))) :: size_type)
                   < vec_size (queue (Update (snd (Recreate w p)))
                                 (NativeHandle (fst (Recreate w p))))))"
proof -
  obtain b event' w' p' where poll: "PollEvent w p event = Inr (b, event', w', p')"
    using PollEvent_no_throw by blast
  from Recreate_syscalls_prefix [OF poll assms]
  have calls: "\<exists>cs. syscalls p' = syscalls p @ recreate_calls w @ cs" .
  have rest: "if Dead (fst (Recreate w p))
      then \<not> b \<and> event' = event \<and> w' = fst (Recreate w p) \<and> p' = snd (Recreate w p)
      else PollEvent (fst (Recreate w p)) (snd (Recreate w p)) event = Inr (b, event', w', p') \<and>
           (b \<longleftrightarrow> (scast (Ticket (fst (Recreate w p))) :: size_type)
                   < vec_size (queue (Update (snd (Recreate w p)))
                                 (NativeHandle (fst (Recreate w p)))))"
  proof (cases "Dead (fst (Recreate w p))")
    case True
    with poll assms show ?thesis by (simp add: PollEvent_dead)
  next
    case False
    with poll assms
    have again: "PollEvent (fst (Recreate w p)) (snd (Recreate w p)) event = Inr (b, event', w', p')"
      by (simp add: PollEvent_dead)
    then have "b \<longleftrightarrow> (scast (Ticket (fst (Recreate w p))) :: size_type)
                   < vec_size (queue (Update (snd (Recreate w p)))
                                 (NativeHandle (fst (Recreate w p))))"
      using False by (auto simp: PollEvent_alive Let_def split: if_splits)
    with again False show ?thesis by simp
  qed
  from poll calls rest show ?thesis by blast
qed

theorem PollEvent_dead_recreates_first_witness:
  "Dead (fst scenario_missing) \<and>
   PollEvent (fst scenario_missing) (snd scenario_missing) directory_event_default =
     Inr (False, directory_event_default, fst scenario_missing,
          snd scenario_missing
            \<lparr>syscalls := [inotify_add_watch ''nowhere'' add_watch_flags,
                          inotify_add_watch ''nowhere'' add_watch_flags]\<rparr>) \<and>
   Dead (fst after_destroyed) \<and>
   PollEvent (fst after_destroyed) (snd after_destroyed) directory_event_default =
     Inr (True, \<lparr>Type = file_created, Name = ''a.txt''\<rparr>,
          \<lparr>Path = ''d'', NativeHandle = 2, Ticket = 1, Dead = False\<rparr>,
          \<lparr>events = [1 \<mapsto> [\<lparr>Type = watch_directory_destroyed, Name = []\<rparr>],
                     2 \<mapsto> [\<lparr>Type = file_created, Name = ''a.txt''\<rparr>]],
           eventBuffer = read_created_a_2 @ replicate 4064 (CHR 0x00),
           kernel_add_watch = [], kernel_read = [],
           syscalls = [inotify_add_watch ''d'' add_watch_flags, read_inotify,
                       inotify_rm_watch 1, inotify_add_watch ''d'' add_watch_flags,
                       read_inotify]\<rparr>)"
  using PollEvent_dead_recreates_first [of "fst scenario_missing" "snd scenario_missing"
      directory_event_default]
    PollEvent_dead_recreates_first [of "fst after_destroyed" "snd after_destroyed"
      directory_event_default]
  by (simp add: scenario_missing_eq after_destroyed_def run_defs)

lemma failed_construction_handle:
  assumes "Dead (fst (generic_directory_watch_new path p))"
  shows "NativeHandle (fst (generic_directory_watch_new path p)) = - 1"
  using assms
  by (simp add: generic_directory_watch_new_def Recreate_watch split: if_splits)

subsection \<open>Destroying twice\<close>

text \<open>
  C8. \<^verbatim>\<open>Destroy\<close> of the pool and of the watch are total functions with no error
  result: the return value of \<^verbatim>\<open>inotify_rm_watch\<close> is dropped. With the sentinel
  handle -1 the pool is left exactly as it was; with any other handle, valid or not, only
  the system call is added. Destroying a watch a second time, also through the destructor,
  yields the same dead watch and leaves every queue as it was, and the watch left by a
  failed construction holds the sentinel, so that its destruction changes nothing.
\<close>

theorem Destroy_idempotent:
  "Destroy p (- 1) = p \<and>
   Destroy p ident = p\<lparr>syscalls := syscalls p @ (if ident = - 1 then [] else [inotify_rm_watch ident])\<rparr> \<and>
   (\<forall>h. queue (Destroy (Destroy p ident) ident) h = queue p h) \<and>
   fst (watch_Destroy (fst (watch_Destroy w p)) (snd (watch_Destroy w p))) = fst (watch_Destroy w p) \<and>
   Dead (fst (watch_Destroy w p)) \<and>
   (\<forall>h. queue (generic_directory_watch_delete (fst (watch_Destroy w p)) (snd (watch_Destroy w p))) h
           = queue p h) \<and>
   (Dead (fst (generic_directory_watch_new path p)) \<longrightarrow>
      generic_directory_watch_delete (fst (generic_directory_watch_new path p))
         (snd (generic_directory_watch_new path p))
        = snd (generic_directory_watch_new path p))"
proof -
  have "Destroy p (- 1) = p"
    by (simp add: Destroy_def)
  moreover have "Destroy p ident = p\<lparr>syscalls := syscalls p @ (if ident = - 1 then [] else [inotify_rm_watch ident])\<rparr>"
    by (simp add: Destroy_def)
  moreover have "\<forall>h. queue (Destroy (Destroy p ident) ident) h = queue p h"
    by (simp add: Destroy_fields)
  moreover have "fst (watch_Destroy (fst (watch_Destroy w p)) (snd (watch_Destroy w p))) = fst (watch_Destroy w p)"
    by (simp add: watch_Destroy_def)
  moreover have "Dead (fst (watch_Destroy w p))"
    by (simp add: watch_Destroy_def)
  moreover have "\<forall>h. queue (generic_directory_watch_delete (fst (watch_Destroy w p)) (snd (watch_Destroy w p))) h
           = queue p h"
    by (simp add: generic_directory_watch_delete_def watch_Destroy_def Destroy_fields)
  moreover have "Dead (fst (generic_directory_watch_new path p)) \<longrightarrow>
      generic_directory_watch_delete (fst (generic_directory_watch_new path p))
         (snd (generic_directory_watch_new path p))
        = snd (generic_directory_watch_new path p)"
    using failed_construction_handle [of path p]
    by (simp add: generic_directory_watch_delete_def watch_Destroy_def Destroy_def)
  ultimately show ?thesis by blast
qed

theorem Destroy_idempotent_witness:
  "Dead (fst scenario_missing) \<and>
   generic_directory_watch_delete (fst scenario_missing) (snd scenario_missing) = snd scenario_missing \<and>
   generic_directory_watch_delete (fst (watch_Destroy (fst scenario_destroyed) (snd scenario_destroyed)))
      (snd (watch_Destroy (fst scenario_destroyed) (snd scenario_destroyed)))
     = snd scenario_destroyed
         \<lparr>syscalls := [inotify_add_watch ''d'' add_watch_flags, inotify_rm_watch 1, inotify_rm_watch 1]\<rparr>"
  using Destroy_idempotent [of "inotify_watch_pool_new [] []" 1
      "fst scenario_missing" "''nowhere''"]
    Destroy_idempotent [of "snd scenario_destroyed" 1 "fst scenario_destroyed" "''d''"]
  by (simp add: scenario_missing_def [symmetric] scenario_missing_eq scenario_destroyed_eq
      generic_directory_watch_delete_def watch_Destroy_def Destroy_def)

subsection \<open>The ticket as a cursor\<close>









lemma Recreate_queue: "queue (snd (Recreate w p)) h = queue p h"
  by (simp add: Recreate_fields)















subsection \<open>The ticket of a new registration\<close>

text \<open>
  \<^verbatim>\<open>Create\<close> returns the size of the queue as a \<^verbatim>\<open>size_type\<close>, and
  \<^verbatim>\<open>Recreate\<close> stores it in the \<^verbatim>\<open>int\<close> member. While the queue holds fewer
  than \<open>2 ^ 31\<close> entries the stored ticket is that size.
\<close>

lemma narrow_small:
  assumes "n < 2 ^ 31"
  shows "sint (ucast (word_of_nat n :: size_type) :: int32) = int n"
proof -
  have "n < 2 ^ 64"
    using assms by (rule less_trans) simp
  then have "take_bit 64 n = n"
    by (simp add: take_bit_nat_eq_self)
  then have "(ucast (word_of_nat n :: size_type) :: int32) = word_of_nat n"
    by (simp add: unsigned_of_nat)
  moreover have "sint (word_of_nat n :: int32) = signed_take_bit 31 (int n)"
    by (simp add: signed_of_nat)
  moreover have "signed_take_bit 31 (int n) = int n"
    using assms by (intro signed_take_bit_int_eq_self) simp_all
  ultimately show ?thesis by simp
qed

lemma recreate_result_ticket:
  "Ticket0 (recreate_result w p) = vec_size (queue p (Handle (recreate_result w p)))"
  by (simp add: recreate_result_eq split: list.split prod.split)

lemma Recreate_ticket_small:
  assumes alive: "\<not> Dead (fst (Recreate w p))"
    and small: "length (queue p (Handle (recreate_result w p))) < 2 ^ 31"
  shows "NativeHandle (fst (Recreate w p)) = Handle (recreate_result w p) \<and>
         sint (Ticket (fst (Recreate w p)))
           = int (length (queue (snd (Recreate w p)) (NativeHandle (fst (Recreate w p)))))"
proof -
  from alive have ok: "Error (recreate_result w p) = 0"
    by (simp add: Recreate_Dead)
  then have h: "NativeHandle (fst (Recreate w p)) = Handle (recreate_result w p)"
    and t: "Ticket (fst (Recreate w p)) = ucast (Ticket0 (recreate_result w p))"
    by (simp_all add: Recreate_watch)
  from t have "Ticket (fst (Recreate w p))
      = ucast (word_of_nat (length (queue p (Handle (recreate_result w p)))) :: size_type)"
    by (simp add: recreate_result_ticket vec_size_def)
  with narrow_small [OF small] h show ?thesis
    by (simp add: Recreate_queue)
qed

lemma backlog_size: "vec_size (replicate 4294967296 x) = (4294967296 :: size_type)"
  by (simp add: vec_size_def)

lemma backlog_create:
  "Create backlog_pool ''d'' =
     (\<lparr>Error = 0, Handle = 1, Ticket0 = 4294967296\<rparr>,
      backlog_pool\<lparr>kernel_add_watch := [], syscalls := [inotify_add_watch ''d'' add_watch_flags]\<rparr>)"
  by (simp add: backlog_pool_def Create_def sys_inotify_add_watch_def subscript_def Let_def
      backlog_size add_watch_flags_def)

lemma backlog_new:
  "generic_directory_watch_new ''d'' backlog_pool =
     (\<lparr>Path = ''d'', NativeHandle = 1, Ticket = 0, Dead = False\<rparr>,
      backlog_pool\<lparr>kernel_add_watch := [], syscalls := [inotify_add_watch ''d'' add_watch_flags]\<rparr>)"
  by (simp add: generic_directory_watch_new_def Recreate_def watch_Destroy_def Destroy_def
      c_str_def backlog_create)

text \<open>
  C4 at a queue of \<open>2 ^ 32\<close> entries: \<^verbatim>\<open>Create\<close> returns the ticket
  \<open>2 ^ 32\<close>, the size of the queue, but the watch stores 0, and its first poll
  returns the oldest entry of the backlog.
\<close>

theorem Recreate_ticket_truncated:
  "Ticket0 (fst (Create backlog_pool ''d'')) = vec_size (queue backlog_pool 1) \<and>
   vec_size (queue backlog_pool 1) = 4294967296 \<and>
   Ticket (fst (generic_directory_watch_new ''d'' backlog_pool)) = 0 \<and>
   PollEvent (fst (generic_directory_watch_new ''d'' backlog_pool))
      (snd (generic_directory_watch_new ''d'' backlog_pool)) directory_event_default
     = Inr (True, \<lparr>Type = file_created, Name = ''old''\<rparr>,
            \<lparr>Path = ''d'', NativeHandle = 1, Ticket = 1, Dead = False\<rparr>,
            backlog_pool\<lparr>kernel_add_watch := [],
              syscalls := [inotify_add_watch ''d'' add_watch_flags, read_inotify]\<rparr>)"
  unfolding backlog_new backlog_create
  by (simp add: PollEvent_def Update_def sys_read_def GetEvents_def
      subscript_def at_def backlog_size queue_def Let_def backlog_pool_def)

section \<open>The file watcher\<close>

subsection \<open>Destruction events carry the empty name\<close>

lemma classify_unnamed:
  "e \<in> set (classify buf off) \<Longrightarrow> Type e = watch_directory_destroyed \<Longrightarrow> Name e = []"
  by (auto simp: classify_def split: if_splits)

lemma ParseEvent_unnamed: "destroyed_unnamed p \<Longrightarrow> destroyed_unnamed (ParseEvent p off)"
  by (auto simp: destroyed_unnamed_def ParseEvent_queue dest: classify_unnamed)

lemma Update_loop_unnamed:
  "destroyed_unnamed p \<Longrightarrow> destroyed_unnamed (Update_loop p len offset)"
proof (induction p len offset rule: Update_loop.induct)
  case (1 p len offset)
  show ?case
  proof (cases "offset < len")
    case True
    from "1.prems" have "destroyed_unnamed (ParseEvent p offset)"
      by (rule ParseEvent_unnamed)
    with "1.IH" True show ?thesis
      by (simp add: Update_loop_step)
  next
    case False
    with "1.prems" show ?thesis
      by (simp add: Update_loop_done)
  qed
qed

lemma destroyed_unnamed_cong:
  "(\<And>h. queue q h = queue p h) \<Longrightarrow> destroyed_unnamed q = destroyed_unnamed p"
  by (simp add: destroyed_unnamed_def)

lemma Update_unnamed: "destroyed_unnamed p \<Longrightarrow> destroyed_unnamed (Update p)"
proof -
  assume inv: "destroyed_unnamed p"
  have "destroyed_unnamed (snd (sys_read p))"
    using inv destroyed_unnamed_cong [of "snd (sys_read p)" p] by (simp add: sys_read_queue)
  then show ?thesis
    by (simp add: Update_def split_beta Update_loop_unnamed split: option.split)
qed

lemma Recreate_unnamed: "destroyed_unnamed (snd (Recreate w p)) = destroyed_unnamed p"
  by (rule destroyed_unnamed_cong) (rule Recreate_queue)

lemma GetEvents_unnamed: "destroyed_unnamed (snd (GetEvents p k)) = destroyed_unnamed p"
  by (rule destroyed_unnamed_cong) (simp add: GetEvents_fields)

lemma at_member:
  assumes "n < vec_size vec"
  shows "vec ! unat n \<in> set vec"
proof -
  from assms have "unat n < unat (word_of_nat (length vec) :: size_type)"
    by (simp add: word_less_nat_alt vec_size_def)
  also have "\<dots> \<le> length vec"
    by (simp add: unat_of_nat)
  finally show ?thesis
    by (rule nth_mem)
qed

lemma PollEvent_alive_facts:
  assumes "\<not> Dead w" and "PollEvent w p event = Inr (b, event', w', p')"
  shows "b \<Longrightarrow> event' \<in> set (queue p' (NativeHandle w'))"
    and "destroyed_unnamed p \<Longrightarrow> destroyed_unnamed p'"
  using assms
  by (auto simp: PollEvent_alive Let_def GetEvents_fields GetEvents_unnamed Update_unnamed
      at_member not_le split: if_splits)

lemma PollEvent_facts:
  assumes "PollEvent w p event = Inr (b, event', w', p')"
  shows "b \<Longrightarrow> event' \<in> set (queue p' (NativeHandle w'))"
    and "destroyed_unnamed p \<Longrightarrow> destroyed_unnamed p'"
proof -
  have "(b \<longrightarrow> event' \<in> set (queue p' (NativeHandle w'))) \<and>
        (destroyed_unnamed p \<longrightarrow> destroyed_unnamed p')"
  proof (cases "Dead w")
    case False
    from PollEvent_alive_facts [OF False assms] show ?thesis by blast
  next
    case True
    show ?thesis
    proof (cases "Dead (fst (Recreate w p))")
      case True
      with \<open>Dead w\<close> assms have "\<not> b" and "p' = snd (Recreate w p)"
        by (simp_all add: PollEvent_dead)
      then show ?thesis
        by (simp add: Recreate_unnamed)
    next
      case False
      with \<open>Dead w\<close> assms
      have "PollEvent (fst (Recreate w p)) (snd (Recreate w p)) event = Inr (b, event', w', p')"
        by (simp add: PollEvent_dead)
      from PollEvent_alive_facts [OF False this] show ?thesis
        by (simp add: Recreate_unnamed)
    qed
  qed
  then show "b \<Longrightarrow> event' \<in> set (queue p' (NativeHandle w'))"
    and "destroyed_unnamed p \<Longrightarrow> destroyed_unnamed p'"
    by simp_all
qed

lemma inotify_watch_pool_new_unnamed: "destroyed_unnamed (inotify_watch_pool_new adds reads)"
  by (simp add: destroyed_unnamed_def inotify_watch_pool_new_def queue_def)

lemma generic_file_watcher_new_unnamed:
  "destroyed_unnamed (snd (generic_file_watcher_new dir p)) = destroyed_unnamed p"
  by (simp add: generic_file_watcher_new_def generic_directory_watch_new_def split_beta
      Recreate_unnamed)

subsection \<open>The name filter\<close>

lemma file_PollEvent_stop:
  assumes "PollEvent (DirectoryWatcher fw) p event = Inr (b1, event1, dw1, p1)"
    and "\<not> b1 \<or> Name event1 = Filename fw"
  shows "file_PollEvent fw p event = Inr (b1, event1, fw\<lparr>DirectoryWatcher := dw1\<rparr>, p1)"
  using assms by (subst file_PollEvent.simps) auto

lemma file_PollEvent_loop:
  assumes "PollEvent (DirectoryWatcher fw) p event = Inr (True, event1, dw1, p1)"
    and "Name event1 \<noteq> Filename fw"
  shows "file_PollEvent fw p event = file_PollEvent (fw\<lparr>DirectoryWatcher := dw1\<rparr>) p1 event1"
  using assms by (subst file_PollEvent.simps) simp

lemma poll_n_Cons:
  assumes "PollEvent w p event = Inr (True, event1, w1, p1)"
    and "poll_n n w1 p1 event1 = Inr (evs, event2, w2, p2)"
  shows "poll_n (Suc n) w p event = Inr (event1 # evs, event2, w2, p2)"
  using assms by simp

lemma file_PollEvent_facts:
  "\<exists>n evs event_n dw_n p_n b event' dw' p'.
     poll_n n (DirectoryWatcher fw) p event = Inr (evs, event_n, dw_n, p_n) \<and>
     length evs = n \<and>
     (\<forall>e \<in> set evs. Name e \<noteq> Filename fw) \<and>
     PollEvent dw_n p_n event_n = Inr (b, event', dw', p') \<and>
     (b \<longrightarrow> Name event' = Filename fw) \<and>
     file_PollEvent fw p event = Inr (b, event', fw\<lparr>DirectoryWatcher := dw'\<rparr>, p') \<and>
     (b \<longrightarrow> event' \<in> set (queue p' (NativeHandle dw'))) \<and>
     (destroyed_unnamed p \<longrightarrow> destroyed_unnamed p')"
proof (induction fw p event rule: file_PollEvent.induct)
  case (1 fw p event)
  obtain b1 event1 dw1 p1
    where poll: "PollEvent (DirectoryWatcher fw) p event = Inr (b1, event1, dw1, p1)"
    using PollEvent_no_throw by blast
  note facts = PollEvent_facts [OF poll]
  show ?case
  proof (cases "b1 \<and> Name event1 \<noteq> Filename fw")
    case False
    then have stop: "\<not> b1 \<or> Name event1 = Filename fw"
      by blast
    have start: "poll_n 0 (DirectoryWatcher fw) p event = Inr ([], event, DirectoryWatcher fw, p)"
      by simp
    have fin: "file_PollEvent fw p event = Inr (b1, event1, fw\<lparr>DirectoryWatcher := dw1\<rparr>, p1)"
      by (rule file_PollEvent_stop [OF poll stop])
    have m: "b1 \<longrightarrow> Name event1 = Filename fw"
      using stop by blast
    have q: "b1 \<longrightarrow> event1 \<in> set (queue p1 (NativeHandle dw1))"
      using facts(1) by blast
    have i: "destroyed_unnamed p \<longrightarrow> destroyed_unnamed p1"
      using facts(2) by blast
    show ?thesis
      by (intro exI [of _ 0] exI [of _ "[]"] exI [of _ event] exI [of _ "DirectoryWatcher fw"]
          exI [of _ p] exI [of _ b1] exI [of _ event1] exI [of _ dw1] exI [of _ p1])
        (use start poll fin m q i in simp)
  next
    case True
    then have b1: b1 and other: "Name event1 \<noteq> Filename fw"
      by simp_all
    from poll b1 have poll': "PollEvent (DirectoryWatcher fw) p event = Inr (True, event1, dw1, p1)"
      by simp
    have "\<exists>n evs event_n dw_n p_n b event' dw' p'.
        poll_n n dw1 p1 event1 = Inr (evs, event_n, dw_n, p_n) \<and>
        length evs = n \<and>
        (\<forall>e \<in> set evs. Name e \<noteq> Filename fw) \<and>
        PollEvent dw_n p_n event_n = Inr (b, event', dw', p') \<and>
        (b \<longrightarrow> Name event' = Filename fw) \<and>
        file_PollEvent (fw\<lparr>DirectoryWatcher := dw1\<rparr>) p1 event1
          = Inr (b, event', fw\<lparr>DirectoryWatcher := dw'\<rparr>, p') \<and>
        (b \<longrightarrow> event' \<in> set (queue p' (NativeHandle dw'))) \<and>
        (destroyed_unnamed p1 \<longrightarrow> destroyed_unnamed p')"
      using "1.IH" [OF poll refl refl refl b1 other] by simp
    then obtain n evs event_n dw_n p_n b event' dw' p' where
      run: "poll_n n dw1 p1 event1 = Inr (evs, event_n, dw_n, p_n)" and
      len: "length evs = n" and
      discarded: "\<forall>e \<in> set evs. Name e \<noteq> Filename fw" and
      last: "PollEvent dw_n p_n event_n = Inr (b, event', dw', p')" and
      match: "b \<longrightarrow> Name event' = Filename fw" and
      rec: "file_PollEvent (fw\<lparr>DirectoryWatcher := dw1\<rparr>) p1 event1
              = Inr (b, event', fw\<lparr>DirectoryWatcher := dw'\<rparr>, p')" and
      mem: "b \<longrightarrow> event' \<in> set (queue p' (NativeHandle dw'))" and
      inv: "destroyed_unnamed p1 \<longrightarrow> destroyed_unnamed p'"
      by blast
    have run': "poll_n (Suc n) (DirectoryWatcher fw) p event
        = Inr (event1 # evs, event_n, dw_n, p_n)"
      by (rule poll_n_Cons [OF poll' run])
    have len': "length (event1 # evs) = Suc n"
      using len by simp
    have discarded': "\<forall>e \<in> set (event1 # evs). Name e \<noteq> Filename fw"
      using discarded other by simp
    have fin: "file_PollEvent fw p event = Inr (b, event', fw\<lparr>DirectoryWatcher := dw'\<rparr>, p')"
      using file_PollEvent_loop [OF poll' other] rec by simp
    have inv': "destroyed_unnamed p \<longrightarrow> destroyed_unnamed p'"
      using facts(2) inv by blast
    show ?thesis
      by (intro exI [of _ "Suc n"] exI [of _ "event1 # evs"] exI [of _ event_n] exI [of _ dw_n]
          exI [of _ p_n] exI [of _ b] exI [of _ event'] exI [of _ dw'] exI [of _ p'])
        (use run' len' discarded' last match fin mem inv' in blast)
  qed
qed

text \<open>
  C7, as the code has it. \<^verbatim>\<open>generic_file_watcher::PollEvent\<close> does not throw. It
  makes \<open>n + 1\<close> calls of the inner \<^verbatim>\<open>PollEvent\<close>, for some \<open>n\<close>: the first
  \<open>n\<close> return true with events whose names differ from the configured filename, and
  these are discarded; the last one either returns true with an event that has the
  configured filename, or returns false; and the result, the event and the states of that
  last inner call are what the file watcher returns. So an event with another name is
  never returned and the first event with the configured filename is. On a pool whose
  destruction events carry the empty name, a watcher with a non-empty filename never
  returns a destruction event.
\<close>

theorem file_PollEvent_filters_by_name:
  "\<exists>n evs event_n dw_n p_n b event' dw' p'.
     poll_n n (DirectoryWatcher fw) p event = Inr (evs, event_n, dw_n, p_n) \<and>
     length evs = n \<and>
     (\<forall>e \<in> set evs. Name e \<noteq> Filename fw) \<and>
     PollEvent dw_n p_n event_n = Inr (b, event', dw', p') \<and>
     (b \<longrightarrow> Name event' = Filename fw) \<and>
     file_PollEvent fw p event = Inr (b, event', fw\<lparr>DirectoryWatcher := dw'\<rparr>, p') \<and>
     (b \<and> destroyed_unnamed p \<and> Filename fw \<noteq> [] \<longrightarrow>
        Type event' \<noteq> watch_directory_destroyed)"
proof -
  from file_PollEvent_facts [of fw p event]
  obtain n evs event_n dw_n p_n b event' dw' p' where
    run: "poll_n n (DirectoryWatcher fw) p event = Inr (evs, event_n, dw_n, p_n)" and
    len: "length evs = n" and
    discarded: "\<forall>e \<in> set evs. Name e \<noteq> Filename fw" and
    last: "PollEvent dw_n p_n event_n = Inr (b, event', dw', p')" and
    match: "b \<longrightarrow> Name event' = Filename fw" and
    fin: "file_PollEvent fw p event = Inr (b, event', fw\<lparr>DirectoryWatcher := dw'\<rparr>, p')" and
    mem: "b \<longrightarrow> event' \<in> set (queue p' (NativeHandle dw'))" and
    inv: "destroyed_unnamed p \<longrightarrow> destroyed_unnamed p'"
    by blast
  have "Type event' \<noteq> watch_directory_destroyed"
    if b and "destroyed_unnamed p" and "Filename fw \<noteq> []"
  proof
    assume "Type event' = watch_directory_destroyed"
    moreover from that mem inv
    have "event' \<in> set (queue p' (NativeHandle dw'))" and "destroyed_unnamed p'"
      by simp_all
    ultimately have "Name event' = []"
      by (auto simp: destroyed_unnamed_def)
    with that match show False
      by simp
  qed
  with run len discarded last match fin show ?thesis
    by blast
qed

lemma scenario_file_eq:
  "scenario_file =
     (\<lparr>DirectoryWatcher = \<lparr>Path = ''d/'', NativeHandle = 1, Ticket = 0, Dead = False\<rparr>,
       Filename = ''a.txt''\<rparr>,
      \<lparr>events = [1 \<mapsto> []], eventBuffer = replicate 4096 (CHR 0x00),
       kernel_add_watch = [], kernel_read = [read_bytes read_file],
       syscalls = [inotify_add_watch ''d/'' add_watch_flags]\<rparr>)"
  by (simp add: scenario_file_def generic_file_watcher_new_def GetDirectory_def GetFilename_def
      is_separator_def run_defs)

lemma scenario_file_unnamed_eq:
  "scenario_file_unnamed =
     (\<lparr>DirectoryWatcher = \<lparr>Path = ''d/'', NativeHandle = 1, Ticket = 0, Dead = False\<rparr>,
       Filename = []\<rparr>,
      \<lparr>events = [1 \<mapsto> []], eventBuffer = replicate 4096 (CHR 0x00),
       kernel_add_watch = [], kernel_read = [read_bytes read_file_unnamed],
       syscalls = [inotify_add_watch ''d/'' add_watch_flags]\<rparr>)"
  by (simp add: scenario_file_unnamed_def generic_file_watcher_new_def GetDirectory_def GetFilename_def
      is_separator_def run_defs)

lemma scenario_file_poll:
  "file_PollEvent (fst scenario_file) (snd scenario_file) directory_event_default =
     Inr (True, \<lparr>Type = file_deleted, Name = ''a.txt''\<rparr>, fst after_file_poll, snd after_file_poll)"
  by (simp add: scenario_file_eq after_file_poll_def file_PollEvent.simps run_defs)

lemma after_file_poll_poll:
  "file_PollEvent (fst after_file_poll) (snd after_file_poll) \<lparr>Type = file_deleted, Name = ''a.txt''\<rparr> =
     Inr (False, \<lparr>Type = watch_directory_destroyed, Name = []\<rparr>,
          \<lparr>DirectoryWatcher = \<lparr>Path = ''d/'', NativeHandle = 1, Ticket = 3, Dead = True\<rparr>,
            Filename = ''a.txt''\<rparr>,
          (snd after_file_poll)
            \<lparr>events := [1 \<mapsto> [\<lparr>Type = file_created, Name = ''b.txt''\<rparr>,
                        \<lparr>Type = file_deleted, Name = ''a.txt''\<rparr>,
                        \<lparr>Type = watch_directory_destroyed, Name = []\<rparr>], - 1 \<mapsto> []],
             syscalls := [inotify_add_watch ''d/'' add_watch_flags, read_inotify, read_inotify,
               read_inotify, inotify_rm_watch 1, inotify_add_watch ''d/'' add_watch_flags]\<rparr>)"
  by (simp add: after_file_poll_def file_PollEvent.simps run_defs)

theorem file_PollEvent_filters_by_name_witness:
  "(\<exists>n evs event_n dw_n p_n.
      poll_n n (DirectoryWatcher (fst scenario_file)) (snd scenario_file) directory_event_default
        = Inr (evs, event_n, dw_n, p_n) \<and>
      length evs = n \<and>
      (\<forall>e \<in> set evs. Name e \<noteq> ''a.txt'') \<and>
      PollEvent dw_n p_n event_n
        = Inr (True, \<lparr>Type = file_deleted, Name = ''a.txt''\<rparr>,
               DirectoryWatcher (fst after_file_poll), snd after_file_poll)) \<and>
   poll_n 1 (DirectoryWatcher (fst scenario_file)) (snd scenario_file) directory_event_default
     = Inr ([\<lparr>Type = file_created, Name = ''b.txt''\<rparr>], \<lparr>Type = file_created, Name = ''b.txt''\<rparr>,
            \<lparr>Path = ''d/'', NativeHandle = 1, Ticket = 1, Dead = False\<rparr>,
            (snd after_file_poll)
              \<lparr>syscalls := [inotify_add_watch ''d/'' add_watch_flags, read_inotify]\<rparr>) \<and>
   file_PollEvent (fst scenario_file) (snd scenario_file) directory_event_default =
     Inr (True, \<lparr>Type = file_deleted, Name = ''a.txt''\<rparr>, fst after_file_poll, snd after_file_poll) \<and>
   destroyed_unnamed (snd scenario_file) \<and>
   Filename (fst scenario_file) = ''a.txt'' \<and>
   (\<exists>fw' p'. file_PollEvent (fst after_file_poll) (snd after_file_poll)
        \<lparr>Type = file_deleted, Name = ''a.txt''\<rparr>
      = Inr (False, \<lparr>Type = watch_directory_destroyed, Name = []\<rparr>, fw', p'))"
proof -
  have inv: "destroyed_unnamed (snd scenario_file)"
    by (simp add: scenario_file_eq destroyed_unnamed_def queue_def)
  have name: "Filename (fst scenario_file) = ''a.txt''"
    by (simp add: scenario_file_eq)
  have one: "poll_n 1 (DirectoryWatcher (fst scenario_file)) (snd scenario_file) directory_event_default
     = Inr ([\<lparr>Type = file_created, Name = ''b.txt''\<rparr>], \<lparr>Type = file_created, Name = ''b.txt''\<rparr>,
            \<lparr>Path = ''d/'', NativeHandle = 1, Ticket = 1, Dead = False\<rparr>,
            (snd after_file_poll)
              \<lparr>syscalls := [inotify_add_watch ''d/'' add_watch_flags, read_inotify]\<rparr>)"
    by (simp add: scenario_file_eq after_file_poll_def run_defs)
  from file_PollEvent_filters_by_name [of "fst scenario_file" "snd scenario_file" directory_event_default]
  obtain n evs event_n dw_n p_n b event' dw' p' where
    run: "poll_n n (DirectoryWatcher (fst scenario_file)) (snd scenario_file) directory_event_default
            = Inr (evs, event_n, dw_n, p_n)" and
    len: "length evs = n" and
    discarded: "\<forall>e \<in> set evs. Name e \<noteq> Filename (fst scenario_file)" and
    last: "PollEvent dw_n p_n event_n = Inr (b, event', dw', p')" and
    fin: "file_PollEvent (fst scenario_file) (snd scenario_file) directory_event_default
            = Inr (b, event', (fst scenario_file)\<lparr>DirectoryWatcher := dw'\<rparr>, p')"
    by blast
  from fin scenario_file_poll
  have "(b, event', (fst scenario_file)\<lparr>DirectoryWatcher := dw'\<rparr>, p')
      = (True, \<lparr>Type = file_deleted, Name = ''a.txt''\<rparr>, fst after_file_poll, snd after_file_poll)"
    by (simp only: sum.inject)
  then have b and "event' = \<lparr>Type = file_deleted, Name = ''a.txt''\<rparr>" and "p' = snd after_file_poll"
    and "(fst scenario_file)\<lparr>DirectoryWatcher := dw'\<rparr> = fst after_file_poll"
    by (simp_all only: prod.inject)
  moreover from this(4) have "dw' = DirectoryWatcher (fst after_file_poll)"
    by (simp add: scenario_file_eq after_file_poll_def)
  ultimately have "PollEvent dw_n p_n event_n
      = Inr (True, \<lparr>Type = file_deleted, Name = ''a.txt''\<rparr>,
             DirectoryWatcher (fst after_file_poll), snd after_file_poll)"
    using last by simp
  with run len discarded name
  have "\<exists>n evs event_n dw_n p_n.
      poll_n n (DirectoryWatcher (fst scenario_file)) (snd scenario_file) directory_event_default
        = Inr (evs, event_n, dw_n, p_n) \<and>
      length evs = n \<and>
      (\<forall>e \<in> set evs. Name e \<noteq> ''a.txt'') \<and>
      PollEvent dw_n p_n event_n
        = Inr (True, \<lparr>Type = file_deleted, Name = ''a.txt''\<rparr>,
               DirectoryWatcher (fst after_file_poll), snd after_file_poll)"
    by auto
  with one scenario_file_poll after_file_poll_poll inv name show ?thesis
    by simp
qed

text \<open>
  C7 as stated fails for a watcher whose filename is empty, as the constructor makes it
  from a path that ends in a separator: the destruction event of the inner watch has the
  empty name, passes the filter and is returned.
\<close>

theorem file_PollEvent_destroyed_counterexample:
  "Filename (fst scenario_file_unnamed) = [] \<and>
   file_PollEvent (fst scenario_file_unnamed) (snd scenario_file_unnamed) directory_event_default =
     Inr (True, \<lparr>Type = watch_directory_destroyed, Name = []\<rparr>,
          \<lparr>DirectoryWatcher = \<lparr>Path = ''d/'', NativeHandle = 1, Ticket = 2, Dead = True\<rparr>,
            Filename = []\<rparr>,
          \<lparr>events = [1 \<mapsto> [\<lparr>Type = file_created, Name = ''b.txt''\<rparr>,
                            \<lparr>Type = watch_directory_destroyed, Name = []\<rparr>]],
           eventBuffer = read_file_unnamed @ replicate 4048 (CHR 0x00),
           kernel_add_watch = [], kernel_read = [],
           syscalls = [inotify_add_watch ''d/'' add_watch_flags, read_inotify, read_inotify]\<rparr>)"
  by (simp add: scenario_file_unnamed_eq file_PollEvent.simps run_defs)

end
